theory Spec2Isabelle
  imports Main "HOL-Library.Char_ord" "HOL-Library.List_Lexorder" "HOL-Library.AList"
begin

section \<open>Galera cluster recovery: data model\<close>

text \<open>
  The recovery orchestrator of the operator (package \<open>galera\<close>: \<open>reconcileRecovery\<close>,
  \<open>recoverCluster\<close>, \<open>restartPods\<close>, \<open>getGaleraState\<close>, \<open>recoverGaleraState\<close>,
  \<open>bootstrap\<close>, the polling helpers, \<open>resetRecovery\<close> and \<open>patchRecoveryStatus\<close>) is
  embedded as state-passing functions. Pod names are Go strings, compared bytewise
  (\<open>Char_ord\<close> with the lexicographic order on lists). Sequence numbers are \<open>int64\<close>
  values that the code only compares, never computes with, so they are integers here.
\<close>

text \<open>\<open>GaleraState\<close>, the answer of a pod's agent to the state query.\<close>

record galeraState =
  uuid :: string
  seqno :: int
  safeToBootstrap :: bool

text \<open>\<open>Bootstrap\<close>, the recovered position a pod's agent reports after a recovery run.\<close>

record recoveredBootstrap =
  recoveredSeqno :: int

text \<open>\<open>GaleraBootstrapStatus\<close>: the pod a bootstrap was started on, and when.\<close>

record bootstrapAttempt =
  bootstrapPod :: string
  startedAt :: nat

text \<open>
  \<open>GaleraRecoveryStatus\<close>, the recovery record held in the status of the cluster
  object. The record's declaration is not part of the sources at hand; its four fields
  are the ones of the specification's data model. A Go map has finitely many keys: each
  of the two maps is kept as the list of its entries, and \<open>states\<close> and \<open>recovered\<close>
  are the maps these lists stand for.
\<close>

record recoveryRecord =
  stateEntries :: "(string \<times> galeraState) list"
  recoveredEntries :: "(string \<times> recoveredBootstrap) list"
  bootstrapping :: "bootstrapAttempt option"
  podsRestarted :: bool

definition states :: "recoveryRecord \<Rightarrow> string \<rightharpoonup> galeraState" where
  "states r = map_of (stateEntries r)"

definition recovered :: "recoveryRecord \<Rightarrow> string \<rightharpoonup> recoveredBootstrap" where
  "recovered r = map_of (recoveredEntries r)"

datatype origin = FromState | FromRecovered

text \<open>The selector's transient result.\<close>

record bootstrapSource =
  srcPod :: string
  srcSeqno :: int
  srcOrigin :: origin

text \<open>
  Go errors. The code builds them with \<open>fmt.Errorf\<close> around the error of a callee;
  a message that interpolates a pod name is kept apart (\<open>PodError context pod cause\<close>),
  since that is how an error identifies a pod. \<open>Failure\<close> is an error reported by a
  collaborator, \<open>MultiError\<close> the list of a \<open>multierror.Error\<close>,
  \<open>DeadlineExceeded\<close> the error of an expired context, \<open>NilDereference\<close> the panic
  of a nil pointer dereference.
\<close>

datatype error =
    Failure string
  | Wrapped string error
  | PodError string string error
  | MultiError "error list"
  | DeadlineExceeded
  | NilDereference

text \<open>The pods an error message names.\<close>

fun podsNamed :: "error \<Rightarrow> string list" where
  "podsNamed (Failure m) = []"
| "podsNamed (Wrapped c e) = podsNamed e"
| "podsNamed (PodError c p e) = p # podsNamed e"
| "podsNamed (MultiError es) = concat (map podsNamed es)"
| "podsNamed DeadlineExceeded = []"
| "podsNamed NilDereference = []"

section \<open>Bootstrap-source selection\<close>

text \<open>
  A candidate is a pod name with the sequence number it would bootstrap from.
  \<open>better c d\<close>: candidate \<open>c\<close> is preferred to \<open>d\<close>, by the higher sequence number
  and, at equal numbers, by the smaller pod name.
\<close>

definition better :: "string \<times> int \<Rightarrow> string \<times> int \<Rightarrow> bool" where
  "better c d \<longleftrightarrow> snd d < snd c \<or> (snd c = snd d \<and> fst c < fst d)"

fun pickBest :: "(string \<times> int) list \<Rightarrow> (string \<times> int) option" where
  "pickBest [] = None"
| "pickBest (c # cs) =
     (case pickBest cs of
        None \<Rightarrow> Some c
      | Some d \<Rightarrow> if better c d then Some c else Some d)"

text \<open>The keys of the two maps, each once.\<close>

definition stateKeys :: "recoveryRecord \<Rightarrow> string list" where
  "stateKeys r = remdups (map fst (stateEntries r))"

definition recoveredKeys :: "recoveryRecord \<Rightarrow> string list" where
  "recoveredKeys r = remdups (map fst (recoveredEntries r))"

definition safeCandidates :: "recoveryRecord \<Rightarrow> (string \<times> int) list" where
  "safeCandidates r =
     concat (map
       (\<lambda>p. case states r p of
               Some st \<Rightarrow> if safeToBootstrap st then [(p, seqno st)] else []
             | None \<Rightarrow> [])
       (stateKeys r))"

definition recoveredCandidates :: "recoveryRecord \<Rightarrow> (string \<times> int) list" where
  "recoveredCandidates r =
     concat (map
       (\<lambda>p. case recovered r p of
               Some b \<Rightarrow> [(p, recoveredSeqno b)]
             | None \<Rightarrow> [])
       (recoveredKeys r))"

text \<open>
  Modelled from the spec: \<open>recoveryStatus.bootstrapSource\<close>, the selector called by
  \<open>recoverCluster\<close> as \<open>rs.bootstrapSource(pods, logger)\<close>, is not part of the sources at
  hand. Following section 4.4 of the specification it is a function of the \<open>states\<close> and
  \<open>recovered\<close> maps alone: among the pods with a recorded state that is safe to
  bootstrap, the highest sequence number wins, ties going to the smallest pod name; with
  no such pod the same choice is made among the recovered positions; with no candidate
  at all the answer is "no source yet", which is not an error. The result has the shape
  of the Go pair \<open>(src, err)\<close>: \<open>Inl\<close> an error, \<open>Inr None\<close> a nil source without
  error.
\<close>

definition bootstrapSource :: "recoveryRecord \<Rightarrow> error + bootstrapSource option" where
  "bootstrapSource r =
     (case pickBest (safeCandidates r) of
        Some (p, n) \<Rightarrow> Inr (Some \<lparr>srcPod = p, srcSeqno = n, srcOrigin = FromState\<rparr>)
      | None \<Rightarrow>
          (case pickBest (recoveredCandidates r) of
             Some (p, n) \<Rightarrow> Inr (Some \<lparr>srcPod = p, srcSeqno = n, srcOrigin = FromRecovered\<rparr>)
           | None \<Rightarrow> Inr None))"

section \<open>The collaborators and the run state\<close>

datatype podPhase = PodRunning | PodNotRunning

text \<open>
  The calls the orchestrator makes on its collaborators: the Kubernetes API (\<open>List\<close>,
  \<open>Get\<close>, \<open>Delete\<close> of pods, the status patch), the agent of a pod and the SQL client
  of a pod. A call on the agent or SQL client of a pod carries the pod's name and the
  index of the client. Logging and event recording are left out.
\<close>

datatype event =
    ListPods
  | GetPod string
  | DeletePod string
  | GetGaleraState string nat
  | RecoveryEnable string nat
  | RecoveryStart string nat
  | RecoveryDisable string nat
  | BootstrapEnable string nat bootstrapSource
  | SqlClientForIndex string nat
  | IsPodSynced string nat
  | PatchStatus "recoveryRecord option"

text \<open>The pod a call is about, if any.\<close>

fun eventPod :: "event \<Rightarrow> string option" where
  "eventPod ListPods = None"
| "eventPod (GetPod p) = Some p"
| "eventPod (DeletePod p) = Some p"
| "eventPod (GetGaleraState p i) = Some p"
| "eventPod (RecoveryEnable p i) = Some p"
| "eventPod (RecoveryStart p i) = Some p"
| "eventPod (RecoveryDisable p i) = Some p"
| "eventPod (BootstrapEnable p i src) = Some p"
| "eventPod (SqlClientForIndex p i) = Some p"
| "eventPod (IsPodSynced p i) = Some p"
| "eventPod (PatchStatus v) = None"

text \<open>
  The behaviour of the collaborators: each call answers from the state of the world
  \<open>'w\<close> and changes it. \<open>Inl\<close> is the error of a call, \<open>Inr\<close> its value. The last four
  fields stand for functions of the repository that are not part of the sources at hand:
  \<open>newAgentClientSet\<close> and \<open>clientForIndex\<close> of the agent client set, and
  \<open>statefulset.PodIndex\<close> and \<open>statefulset.PodName\<close> (for the cluster object at hand).
\<close>

record 'w env =
  listPods :: "'w \<Rightarrow> (error + string list) \<times> 'w"
  getPod :: "string \<Rightarrow> 'w \<Rightarrow> (error + podPhase) \<times> 'w"
  deletePod :: "string \<Rightarrow> 'w \<Rightarrow> (error + unit) \<times> 'w"
  agentGetGaleraState :: "nat \<Rightarrow> 'w \<Rightarrow> (error + galeraState) \<times> 'w"
  agentRecoveryEnable :: "nat \<Rightarrow> 'w \<Rightarrow> (error + unit) \<times> 'w"
  agentRecoveryStart :: "nat \<Rightarrow> 'w \<Rightarrow> (error + recoveredBootstrap) \<times> 'w"
  agentRecoveryDisable :: "nat \<Rightarrow> 'w \<Rightarrow> (error + unit) \<times> 'w"
  agentBootstrapEnable :: "nat \<Rightarrow> bootstrapSource \<Rightarrow> 'w \<Rightarrow> (error + unit) \<times> 'w"
  sqlClientForIndex :: "nat \<Rightarrow> 'w \<Rightarrow> (error + unit) \<times> 'w"
  isPodSynced :: "nat \<Rightarrow> 'w \<Rightarrow> (error + bool) \<times> 'w"
  statusPatch :: "recoveryRecord option \<Rightarrow> 'w \<Rightarrow> (error + unit) \<times> 'w"
  newAgentClientSet :: "error + unit"
  clientForIndex :: "nat \<Rightarrow> error + unit"
  PodIndex :: "string \<Rightarrow> error + nat"
  PodName :: "nat \<Rightarrow> string"

text \<open>
  The fields of the cluster object the orchestrator reads. Durations are in seconds,
  the unit of the clock below.
\<close>

record config =
  replicas :: int
  podRecoveryTimeout :: "nat option"
  podSyncTimeout :: "nat option"
  clusterBootstrapTimeout :: nat

text \<open>
  The state of a run: the world of the collaborators, the clock, the calls made so far
  with their outcome (\<open>True\<close> for success), the working copy \<open>rs\<close> of the recovery record
  (the \<open>recoveryStatus\<close> the functions share by pointer), the status field
  \<open>mariadb.Status.GaleraRecovery\<close> of the cluster object in memory, and the value the
  status store holds.
\<close>

record 'w st =
  world :: 'w
  clock :: nat
  trace :: "(event \<times> bool) list"
  rs :: recoveryRecord
  mdbStatus :: "recoveryRecord option"
  stored :: "recoveryRecord option"

definition succeeded :: "error + 'a \<Rightarrow> bool" where
  "succeeded r = (case r of Inl e \<Rightarrow> False | Inr v \<Rightarrow> True)"

definition call :: "event \<Rightarrow> ('w \<Rightarrow> (error + 'a) \<times> 'w) \<Rightarrow> 'w st \<Rightarrow> (error + 'a) \<times> 'w st" where
  "call ev f s =
     (case f (world s) of
        (r, w) \<Rightarrow> (r, s\<lparr>world := w, trace := trace s @ [(ev, succeeded r)]\<rparr>))"

section \<open>The recovery record's operations\<close>

definition emptyRecord :: recoveryRecord where
  "emptyRecord = \<lparr>stateEntries = [], recoveredEntries = [], bootstrapping = None,
                 podsRestarted = False\<rparr>"

text \<open>
  Modelled from the spec: the methods of \<open>recoveryStatus\<close> are not part of the sources at
  hand. \<open>newRecoveryStatus\<close> takes the record of the cluster's status, the empty record
  when the status has none; \<open>reset\<close> clears all four fields; \<open>isBootstrapping\<close> holds when a
  bootstrap attempt is recorded; \<open>bootstrapTimeout\<close> holds when the age of the recorded
  attempt exceeds the configured timeout; \<open>setState\<close>, \<open>setRecovered\<close>,
  \<open>setBootstrapping\<close> and \<open>setPodsRestarted\<close> write one field, \<open>setBootstrapping\<close>
  with the current time; \<open>setState\<close> and \<open>setRecovered\<close> set the entry of one key.
\<close>

definition newRecoveryStatus :: "recoveryRecord option \<Rightarrow> recoveryRecord" where
  "newRecoveryStatus status = (case status of None \<Rightarrow> emptyRecord | Some r \<Rightarrow> r)"

definition reset :: "recoveryRecord \<Rightarrow> recoveryRecord" where
  "reset r = emptyRecord"

definition isBootstrapping :: "recoveryRecord \<Rightarrow> bool" where
  "isBootstrapping r \<longleftrightarrow> bootstrapping r \<noteq> None"

definition bootstrapTimeout :: "config \<Rightarrow> nat \<Rightarrow> recoveryRecord \<Rightarrow> bool" where
  "bootstrapTimeout cfg now r =
     (case bootstrapping r of
        None \<Rightarrow> False
      | Some b \<Rightarrow> startedAt b + clusterBootstrapTimeout cfg < now)"

definition setState :: "string \<Rightarrow> galeraState \<Rightarrow> recoveryRecord \<Rightarrow> recoveryRecord" where
  "setState p g r = r\<lparr>stateEntries := AList.update p g (stateEntries r)\<rparr>"

definition setRecovered :: "string \<Rightarrow> recoveredBootstrap \<Rightarrow> recoveryRecord \<Rightarrow> recoveryRecord" where
  "setRecovered p b r = r\<lparr>recoveredEntries := AList.update p b (recoveredEntries r)\<rparr>"

definition setBootstrapping :: "string \<Rightarrow> nat \<Rightarrow> recoveryRecord \<Rightarrow> recoveryRecord" where
  "setBootstrapping p now r = r\<lparr>bootstrapping := Some \<lparr>bootstrapPod = p, startedAt = now\<rparr>\<rparr>"

definition setPodsRestarted :: "bool \<Rightarrow> recoveryRecord \<Rightarrow> recoveryRecord" where
  "setPodsRestarted b r = r\<lparr>podsRestarted := b\<rparr>"

text \<open>
  \<open>reflect.ValueOf(galeraRecoveryStatus).IsZero()\<close>: a struct is zero when each of its
  fields is.
\<close>

definition isZero :: "recoveryRecord \<Rightarrow> bool" where
  "isZero r \<longleftrightarrow>
     states r = Map.empty \<and> recovered r = Map.empty \<and> bootstrapping r = None \<and>
     \<not> podsRestarted r"

section \<open>The retry primitive\<close>

text \<open>
  Modelled from the spec: \<open>wait.PollUntilSucessWithTimeout\<close> is not part of the sources at
  hand. It runs the operation until it succeeds or the deadline of its context has
  passed, and then fails with the context's error. Time is the clock of the run state:
  it advances by one second with every failed attempt, the wait between two attempts,
  and calls themselves take no time. A context with a timeout is its deadline.
\<close>

function poll :: "nat \<Rightarrow> ('w st \<Rightarrow> (error + unit) \<times> 'w st) \<Rightarrow> 'w st \<Rightarrow> (error + unit) \<times> 'w st" where
  "poll deadline body s =
     (if deadline \<le> clock s then (Inl DeadlineExceeded, s)
      else (case body s of
              (Inr u, s1) \<Rightarrow> (Inr (), s1)
            | (Inl e, s1) \<Rightarrow> poll deadline body (s1\<lparr>clock := Suc (max (clock s) (clock s1))\<rparr>)))"
  by pat_completeness auto
termination
  by (relation "measure (\<lambda>(deadline, body, s). deadline - clock s)") auto

declare poll.simps [simp del]

section \<open>Persisting the record\<close>

text \<open>
  \<open>patchRecoveryStatus\<close>: the patch function sets the status field to nil when the
  record is zero and to the record otherwise; \<open>patchStatus\<close> (not part of the sources at
  hand) applies it to the cluster object in memory and sends the patch to the status
  store, which holds the new value when the call succeeds.
\<close>

definition patchRecoveryStatus :: "'w env \<Rightarrow> 'w st \<Rightarrow> (error + unit) \<times> 'w st" where
  "patchRecoveryStatus env s =
     (let galeraRecoveryStatus = rs s;
          v = (if isZero galeraRecoveryStatus then None else Some galeraRecoveryStatus)
      in case call (PatchStatus v) (statusPatch env v) (s\<lparr>mdbStatus := v\<rparr>) of
           (Inl e, s1) \<Rightarrow> (Inl e, s1)
         | (Inr u, s1) \<Rightarrow> (Inr (), s1\<lparr>stored := v\<rparr>))"

definition resetRecovery :: "'w env \<Rightarrow> 'w st \<Rightarrow> (error + unit) \<times> 'w st" where
  "resetRecovery env s = patchRecoveryStatus env (s\<lparr>rs := reset (rs s)\<rparr>)"

section \<open>Pods: running, deleted, synced\<close>

definition pollUntilPodRunning :: "'w env \<Rightarrow> nat \<Rightarrow> string \<Rightarrow> 'w st \<Rightarrow> (error + unit) \<times> 'w st" where
  "pollUntilPodRunning env ctx podKey =
     poll ctx (\<lambda>s.
       case call (GetPod podKey) (getPod env podKey) s of
         (Inl e, s1) \<Rightarrow> (Inl (PodError ''error getting Pod'' podKey e), s1)
       | (Inr phase, s1) \<Rightarrow>
           if phase = PodRunning then (Inr (), s1)
           else (Inl (Failure ''Pod not running''), s1))"

definition ensurePodRunning :: "'w env \<Rightarrow> nat \<Rightarrow> string \<Rightarrow> 'w st \<Rightarrow> (error + unit) \<times> 'w st" where
  "ensurePodRunning env ctx podKey s =
     (case call (GetPod podKey) (getPod env podKey) s of
        (Inl e, s1) \<Rightarrow> (Inl (PodError ''error getting Pod'' podKey e), s1)
      | (Inr phase, s1) \<Rightarrow>
          if phase = PodRunning then (Inr (), s1)
          else (case call (DeletePod podKey) (deletePod env podKey) s1 of
                  (Inl e, s2) \<Rightarrow> (Inl (PodError ''error deleting Pod'' podKey e), s2)
                | (Inr u, s2) \<Rightarrow> pollUntilPodRunning env ctx podKey s2))"

definition pollUntilPodDeleted :: "'w env \<Rightarrow> nat \<Rightarrow> string \<Rightarrow> 'w st \<Rightarrow> (error + unit) \<times> 'w st" where
  "pollUntilPodDeleted env ctx podKey =
     poll ctx (\<lambda>s.
       case call (GetPod podKey) (getPod env podKey) s of
         (Inl e, s1) \<Rightarrow> (Inl (PodError ''error getting Pod'' podKey e), s1)
       | (Inr phase, s1) \<Rightarrow>
           (case call (DeletePod podKey) (deletePod env podKey) s1 of
              (Inl e, s2) \<Rightarrow> (Inl (PodError ''error deleting Pod'' podKey e), s2)
            | (Inr u, s2) \<Rightarrow> (Inr (), s2)))"

definition pollUntilPodSynced :: "'w env \<Rightarrow> nat \<Rightarrow> string \<Rightarrow> 'w st \<Rightarrow> (error + unit) \<times> 'w st" where
  "pollUntilPodSynced env ctx podKey =
     poll ctx (\<lambda>s.
       case call (GetPod podKey) (getPod env podKey) s of
         (Inl e, s1) \<Rightarrow> (Inl (PodError ''error getting Pod'' podKey e), s1)
       | (Inr phase, s1) \<Rightarrow>
           (case PodIndex env podKey of
              Inl e \<Rightarrow> (Inl (Wrapped ''error getting Pod index'' e), s1)
            | Inr podIndex \<Rightarrow>
                (case call (SqlClientForIndex podKey podIndex) (sqlClientForIndex env podIndex) s1 of
                   (Inl e, s2) \<Rightarrow> (Inl (Wrapped ''error getting SQL client'' e), s2)
                 | (Inr u, s2) \<Rightarrow>
                     (case call (IsPodSynced podKey podIndex) (isPodSynced env podIndex) s2 of
                        (Inl e, s3) \<Rightarrow> (Inl (Wrapped ''error checking Pod sync'' e), s3)
                      | (Inr synced, s3) \<Rightarrow>
                          if \<not> synced then (Inl (Failure ''Pod not synced''), s3)
                          else (Inr (), s3)))))"

section \<open>State collection and the recovery-mode driver\<close>

definition recoveryTimeout :: "config \<Rightarrow> nat" where
  "recoveryTimeout cfg = (case podRecoveryTimeout cfg of None \<Rightarrow> 3 * 60 | Some d \<Rightarrow> d)"

definition syncTimeout :: "config \<Rightarrow> nat" where
  "syncTimeout cfg = (case podSyncTimeout cfg of None \<Rightarrow> 5 * 60 | Some d \<Rightarrow> d)"

text \<open>The task \<open>getGaleraState\<close> hands to the error group for one pod.\<close>

definition galeraStateTask :: "'w env \<Rightarrow> config \<Rightarrow> string \<Rightarrow> 'w st \<Rightarrow> (error + unit) \<times> 'w st" where
  "galeraStateTask env cfg pod s =
     (case PodIndex env pod of
        Inl e \<Rightarrow> (Inl (PodError ''error getting index for Pod'' pod e), s)
      | Inr i \<Rightarrow>
          (case clientForIndex env i of
             Inl e \<Rightarrow> (Inl (PodError ''error getting client for Pod'' pod e), s)
           | Inr client \<Rightarrow>
               (let recoveryCtx = clock s + recoveryTimeout cfg
                in case poll recoveryCtx (\<lambda>s.
                          case ensurePodRunning env recoveryCtx pod s of
                            (Inl e, s1) \<Rightarrow> (Inl e, s1)
                          | (Inr u, s1) \<Rightarrow>
                              (case call (GetGaleraState pod i) (agentGetGaleraState env i) s1 of
                                 (Inl e, s2) \<Rightarrow> (Inl e, s2)
                               | (Inr galeraState, s2) \<Rightarrow>
                                   (Inr (), s2\<lparr>rs := setState pod galeraState (rs s2)\<rparr>))) s of
                     (Inl e, s1) \<Rightarrow> (Inl (PodError ''error getting Galera state for Pod'' pod e), s1)
                   | (Inr u, s1) \<Rightarrow> (Inr (), s1))))"

text \<open>
  The error group (\<open>golang.org/x/sync/errgroup\<close>, created without a context): \<open>Go\<close>
  starts a task, no task is cancelled when another fails, and \<open>Wait\<close> returns, once all
  tasks are done, the first error a task returned, or nil. The tasks of one group work on
  different pods; they are run here one after the other in the order they are started,
  one of the schedules the group allows, so that the first error is the one of the first
  failing pod. The loop returns each started pod with the result of its task.
\<close>

fun spawnStateTasks ::
  "'w env \<Rightarrow> config \<Rightarrow> string list \<Rightarrow> 'w st \<Rightarrow> (string \<times> (error + unit)) list \<times> 'w st" where
  "spawnStateTasks env cfg [] s = ([], s)"
| "spawnStateTasks env cfg (pod # pods) s =
     (if states (rs s) pod \<noteq> None then spawnStateTasks env cfg pods s
      else (case galeraStateTask env cfg pod s of
              (r, s1) \<Rightarrow>
                (case spawnStateTasks env cfg pods s1 of
                   (results, s2) \<Rightarrow> ((pod, r) # results, s2))))"

fun groupWait :: "(string \<times> (error + unit)) list \<Rightarrow> error + unit" where
  "groupWait [] = Inr ()"
| "groupWait ((pod, Inl e) # results) = Inl e"
| "groupWait ((pod, Inr u) # results) = groupWait results"

definition getGaleraState :: "'w env \<Rightarrow> config \<Rightarrow> string list \<Rightarrow> 'w st \<Rightarrow> (error + unit) \<times> 'w st" where
  "getGaleraState env cfg pods s =
     (case spawnStateTasks env cfg pods s of (results, s1) \<Rightarrow> (groupWait results, s1))"

text \<open>The task \<open>recoverGaleraState\<close> hands to the error group for one pod.\<close>

definition recoveryTask :: "'w env \<Rightarrow> config \<Rightarrow> string \<Rightarrow> 'w st \<Rightarrow> (error + unit) \<times> 'w st" where
  "recoveryTask env cfg pod s =
     (case PodIndex env pod of
        Inl e \<Rightarrow> (Inl (PodError ''error getting index for Pod'' pod e), s)
      | Inr i \<Rightarrow>
          (case clientForIndex env i of
             Inl e \<Rightarrow> (Inl (PodError ''error getting client for Pod'' pod e), s)
           | Inr client \<Rightarrow>
               (let recoveryCtx = clock s + recoveryTimeout cfg
                in case poll recoveryCtx (\<lambda>s.
                          case ensurePodRunning env recoveryCtx pod s of
                            (Inl e, s1) \<Rightarrow> (Inl e, s1)
                          | (Inr u, s1) \<Rightarrow>
                              call (RecoveryEnable pod i) (agentRecoveryEnable env i) s1) s of
                     (Inl e, s1) \<Rightarrow> (Inl (PodError ''error enabling recovery in Pod'' pod e), s1)
                   | (Inr u, s1) \<Rightarrow>
                       (case poll recoveryCtx (\<lambda>s.
                                case ensurePodRunning env recoveryCtx pod s of
                                  (Inl e, s2) \<Rightarrow> (Inl e, s2)
                                | (Inr u, s2) \<Rightarrow>
                                    (case call (RecoveryStart pod i) (agentRecoveryStart env i) s2 of
                                       (Inl e, s3) \<Rightarrow> (Inl e, s3)
                                     | (Inr bootstrap, s3) \<Rightarrow>
                                         (Inr (), s3\<lparr>rs := setRecovered pod bootstrap (rs s3)\<rparr>))) s1 of
                          (Inl e, s2) \<Rightarrow> (Inl (PodError ''error performing recovery in Pod'' pod e), s2)
                        | (Inr u, s2) \<Rightarrow>
                            (case poll recoveryCtx (\<lambda>s.
                                     case ensurePodRunning env recoveryCtx pod s of
                                       (Inl e, s3) \<Rightarrow> (Inl e, s3)
                                     | (Inr u, s3) \<Rightarrow>
                                         call (RecoveryDisable pod i) (agentRecoveryDisable env i) s3) s2 of
                               (Inl e, s3) \<Rightarrow>
                                 (Inl (PodError ''error disabling recovery in Pod'' pod e), s3)
                             | (Inr u, s3) \<Rightarrow> (Inr (), s3))))))"

fun spawnRecoveryTasks ::
  "'w env \<Rightarrow> config \<Rightarrow> string list \<Rightarrow> 'w st \<Rightarrow> (string \<times> (error + unit)) list \<times> 'w st" where
  "spawnRecoveryTasks env cfg [] s = ([], s)"
| "spawnRecoveryTasks env cfg (pod # pods) s =
     (if recovered (rs s) pod \<noteq> None then spawnRecoveryTasks env cfg pods s
      else (case recoveryTask env cfg pod s of
              (r, s1) \<Rightarrow>
                (case spawnRecoveryTasks env cfg pods s1 of
                   (results, s2) \<Rightarrow> ((pod, r) # results, s2))))"

definition recoverGaleraState :: "'w env \<Rightarrow> config \<Rightarrow> string list \<Rightarrow> 'w st \<Rightarrow> (error + unit) \<times> 'w st" where
  "recoverGaleraState env cfg pods s =
     (case spawnRecoveryTasks env cfg pods s of (results, s1) \<Rightarrow> (groupWait results, s1))"

section \<open>Bootstrap, cluster recovery, pod restart\<close>

definition bootstrap :: "'w env \<Rightarrow> bootstrapSource \<Rightarrow> 'w st \<Rightarrow> (error + unit) \<times> 'w st" where
  "bootstrap env src s =
     (case PodIndex env (srcPod src) of
        Inl e \<Rightarrow> (Inl (PodError ''error getting index for Pod'' (srcPod src) e), s)
      | Inr idx \<Rightarrow>
          (case clientForIndex env idx of
             Inl e \<Rightarrow> (Inl (PodError ''error getting client for Pod'' (srcPod src) e), s)
           | Inr client \<Rightarrow>
               (let bootstrapCtx = clock s + 3 * 60
                in case poll bootstrapCtx (\<lambda>s.
                          case ensurePodRunning env bootstrapCtx (srcPod src) s of
                            (Inl e, s1) \<Rightarrow> (Inl e, s1)
                          | (Inr u, s1) \<Rightarrow>
                              call (BootstrapEnable (srcPod src) idx src)
                                (agentBootstrapEnable env idx src) s1) s of
                     (Inl e, s1) \<Rightarrow>
                       (Inl (PodError ''error enabling bootstrap in Pod'' (srcPod src) e), s1)
                   | (Inr u, s1) \<Rightarrow>
                       (Inr (), s1\<lparr>rs := setBootstrapping (srcPod src) (clock s1) (rs s1)\<rparr>))))"

text \<open>\<open>multierror.Append\<close> of one error that may be nil, and \<open>ErrorOrNil\<close>.\<close>

definition appendError :: "error list \<Rightarrow> error + unit \<Rightarrow> error list" where
  "appendError errs r = (case r of Inl e \<Rightarrow> errs @ [e] | Inr u \<Rightarrow> errs)"

definition errorOrNil :: "error list \<Rightarrow> error + unit" where
  "errorOrNil errs = (if errs = [] then Inr () else Inl (MultiError errs))"

text \<open>
  \<open>recoverCluster\<close>. An error of the first selection is only logged. The second
  selection is followed by \<open>bootstrap\<close> without a nil check: with a nil source and no
  error the first statement of \<open>bootstrap\<close> dereferences nil.
\<close>

definition recoverCluster :: "'w env \<Rightarrow> config \<Rightarrow> string list \<Rightarrow> 'w st \<Rightarrow> (error + unit) \<times> 'w st" where
  "recoverCluster env cfg pods s =
     (case getGaleraState env cfg pods s of
        (err1, s1) \<Rightarrow>
     (case patchRecoveryStatus env s1 of
        (err2, s2) \<Rightarrow>
     (case errorOrNil (appendError (appendError [] err1) err2) of
        Inl e \<Rightarrow> (Inl (Wrapped ''error getting state'' e), s2)
      | Inr u \<Rightarrow>
     (case (case bootstrapSource (rs s2) of Inl e \<Rightarrow> None | Inr src \<Rightarrow> src) of
        Some src \<Rightarrow>
          (case bootstrap env src s2 of
             (Inl e, s3) \<Rightarrow> (Inl (Wrapped ''error bootstrapping'' e), s3)
           | (Inr u, s3) \<Rightarrow> patchRecoveryStatus env s3)
      | None \<Rightarrow>
     (case recoverGaleraState env cfg pods s2 of
        (err3, s3) \<Rightarrow>
     (case patchRecoveryStatus env s3 of
        (err4, s4) \<Rightarrow>
     (case errorOrNil (appendError (appendError [] err3) err4) of
        Inl e \<Rightarrow> (Inl (Wrapped ''error performing recovery'' e), s4)
      | Inr u \<Rightarrow>
     (case bootstrapSource (rs s4) of
        Inl e \<Rightarrow> (Inl (Wrapped ''error getting bootstrap source'' e), s4)
      | Inr None \<Rightarrow> (Inl NilDereference, s4)
      | Inr (Some src) \<Rightarrow>
          (case bootstrap env src s4 of
             (Inl e, s5) \<Rightarrow> (Inl (Wrapped ''error bootstrapping'' e), s5)
           | (Inr u, s5) \<Rightarrow>
               (case patchRecoveryStatus env s5 of
                  (Inl e, s6) \<Rightarrow> (Inl (Wrapped ''error patching recovery status'' e), s6)
                | (Inr u, s6) \<Rightarrow> (Inr (), s6)))))))))))"

text \<open>The loop of \<open>restartPods\<close> over the pod keys, under the shared sync context.\<close>

fun restartLoop :: "'w env \<Rightarrow> nat \<Rightarrow> string list \<Rightarrow> 'w st \<Rightarrow> (error + unit) \<times> 'w st" where
  "restartLoop env syncContext [] s = (Inr (), s)"
| "restartLoop env syncContext (key # keys) s =
     (case pollUntilPodDeleted env syncContext key s of
        (Inl e, s1) \<Rightarrow> (Inl (PodError ''error deleting Pod'' key e), s1)
      | (Inr u, s1) \<Rightarrow>
          (case pollUntilPodSynced env syncContext key s1 of
             (Inl e, s2) \<Rightarrow> (Inl (PodError ''error waiting for Pod to be synced'' key e), s2)
           | (Inr u, s2) \<Rightarrow> restartLoop env syncContext keys s2))"

definition podKeys :: "'w env \<Rightarrow> config \<Rightarrow> string \<Rightarrow> string list" where
  "podKeys env cfg bootstrapPodKey =
     bootstrapPodKey #
     filter (\<lambda>name. name \<noteq> bootstrapPodKey) (map (PodName env) [0..<nat (replicas cfg)])"

definition restartPods :: "'w env \<Rightarrow> config \<Rightarrow> 'w st \<Rightarrow> (error + unit) \<times> 'w st" where
  "restartPods env cfg s =
     (case (case mdbStatus s of None \<Rightarrow> None | Some statusRecovery \<Rightarrow> bootstrapping statusRecovery) of
        None \<Rightarrow> (Inl (Failure ''Unable to restart Pods. Cluster hasn't been bootstrapped''), s)
      | Some b \<Rightarrow>
     (case PodIndex env (bootstrapPod b) of
        Inl e \<Rightarrow> (Inl (Wrapped ''error getting Pod index'' e), s)
      | Inr index \<Rightarrow>
     (case clientForIndex env index of
        Inl e \<Rightarrow> (Inl (Wrapped ''error getting agent client'' e), s)
      | Inr client \<Rightarrow>
     (case call (GetGaleraState (bootstrapPod b) index) (agentGetGaleraState env index) s of
        (Inl e, s1) \<Rightarrow> (Inl (Wrapped ''error getting Galera state'' e), s1)
      | (Inr galeraState, s1) \<Rightarrow>
          if \<not> safeToBootstrap galeraState then resetRecovery env s1
          else
            (case restartLoop env (clock s1 + syncTimeout cfg)
                    (podKeys env cfg (bootstrapPod b)) s1 of
               (Inl e, s2) \<Rightarrow> (Inl e, s2)
             | (Inr u, s2) \<Rightarrow>
                 (case patchRecoveryStatus env (s2\<lparr>rs := setPodsRestarted True (rs s2)\<rparr>) of
                    (Inl e, s3) \<Rightarrow> (Inl (Wrapped ''error patching recovery status'' e), s3)
                  | (Inr u, s3) \<Rightarrow> (Inr (), s3)))))))"

section \<open>The orchestrator\<close>

definition getPods :: "'w env \<Rightarrow> 'w st \<Rightarrow> (error + string list) \<times> 'w st" where
  "getPods env s =
     (case call ListPods (listPods env) s of
        (Inl e, s1) \<Rightarrow> (Inl (Wrapped ''error listing Pods'' e), s1)
      | (Inr items, s1) \<Rightarrow> (Inr (sort items), s1))"

text \<open>
  \<open>fmt.Errorf\<close> around the error of \<open>recoverCluster\<close>: a panic is no error value and
  passes the caller as it is.
\<close>

definition errorf :: "string \<Rightarrow> error \<Rightarrow> error" where
  "errorf context e = (case e of NilDereference \<Rightarrow> NilDereference | _ \<Rightarrow> Wrapped context e)"

text \<open>
  The two phases of \<open>reconcileRecovery\<close> that follow the timeout check: cluster recovery
  unless a bootstrap is recorded, pod restart unless the pods have been restarted.
\<close>

definition reconcilePhases :: "'w env \<Rightarrow> config \<Rightarrow> string list \<Rightarrow> 'w st \<Rightarrow> (error + unit) \<times> 'w st" where
  "reconcilePhases env cfg pods s =
     (case (if \<not> isBootstrapping (rs s) then
              (case recoverCluster env cfg pods s of
                 (Inl e, s1) \<Rightarrow> (Inl (errorf ''error recovering cluster'' e), s1)
               | (Inr u, s1) \<Rightarrow> (Inr (), s1))
            else (Inr (), s)) of
        (Inl e, s1) \<Rightarrow> (Inl e, s1)
      | (Inr u, s1) \<Rightarrow>
          if \<not> podsRestarted (rs s1) then
            (case restartPods env cfg s1 of
               (Inl e, s2) \<Rightarrow> (Inl (Wrapped ''error restarting Pods'' e), s2)
             | (Inr u, s2) \<Rightarrow> (Inr (), s2))
          else (Inr (), s1))"

definition reconcileRecovery :: "'w env \<Rightarrow> config \<Rightarrow> 'w st \<Rightarrow> (error + unit) \<times> 'w st" where
  "reconcileRecovery env cfg s =
     (case getPods env s of
        (Inl e, s1) \<Rightarrow> (Inl (Wrapped ''error getting Pods'' e), s1)
      | (Inr pods, s1) \<Rightarrow>
     (case newAgentClientSet env of
        Inl e \<Rightarrow> (Inl (Wrapped ''error getting agent client'' e), s1)
      | Inr agentClientSet \<Rightarrow>
     (let s2 = s1\<lparr>rs := newRecoveryStatus (mdbStatus s1)\<rparr>
      in if bootstrapTimeout cfg (clock s2) (rs s2) then
           (case resetRecovery env s2 of
              (Inl e, s3) \<Rightarrow> (Inl (Wrapped ''error resetting recovery'' e), s3)
            | (Inr u, s3) \<Rightarrow> reconcilePhases env cfg pods s3)
         else reconcilePhases env cfg pods s2)))"

section \<open>Relating the states of a run\<close>

text \<open>
  \<open>steps P R s s'\<close>: the run from \<open>s\<close> to \<open>s'\<close> has only added calls that satisfy \<open>P\<close>
  to the trace, has changed the working record within \<open>R\<close>, and has left the status
  field and the status store alone. \<open>sameExcept q\<close> relates two records that differ at
  most in the entries of pod \<open>q\<close>.
\<close>

definition steps ::
  "(event \<times> bool \<Rightarrow> bool) \<Rightarrow> (recoveryRecord \<Rightarrow> recoveryRecord \<Rightarrow> bool) \<Rightarrow> 'w st \<Rightarrow> 'w st \<Rightarrow> bool" where
  "steps P R s s' \<longleftrightarrow>
     (\<exists>evs. trace s' = trace s @ evs \<and> list_all P evs) \<and> R (rs s) (rs s') \<and>
     mdbStatus s' = mdbStatus s \<and> stored s' = stored s"

definition sameExcept :: "string \<Rightarrow> recoveryRecord \<Rightarrow> recoveryRecord \<Rightarrow> bool" where
  "sameExcept q r r' \<longleftrightarrow>
     (\<forall>p. p \<noteq> q \<longrightarrow> states r' p = states r p \<and> recovered r' p = recovered r p) \<and>
     bootstrapping r' = bootstrapping r \<and> podsRestarted r' = podsRestarted r"

definition podOp :: "string \<Rightarrow> event \<times> bool \<Rightarrow> bool" where
  "podOp k x \<longleftrightarrow> fst x = GetPod k \<or> fst x = DeletePod k"

definition aboutPod :: "string \<Rightarrow> event \<times> bool \<Rightarrow> bool" where
  "aboutPod q x \<longleftrightarrow> eventPod (fst x) = Some q"

text \<open>
  \<open>enableAttempt\<close>: the calls of the bootstrap executor before its successful call, a
  get or delete of the pod or a failed bootstrap-enable call.
\<close>

definition enableAttempt :: "string \<Rightarrow> nat \<Rightarrow> bootstrapSource \<Rightarrow> event \<times> bool \<Rightarrow> bool" where
  "enableAttempt p idx src x \<longleftrightarrow> podOp p x \<or> x = (BootstrapEnable p idx src, False)"




section \<open>Concrete scenarios\<close>

text \<open>The selection examples of the specification's testable properties.\<close>

definition tieRecord :: recoveryRecord where
  "tieRecord =
     \<lparr>stateEntries = [(''p2'', \<lparr>uuid = ''u'', seqno = 10, safeToBootstrap = True\<rparr>),
                      (''p0'', \<lparr>uuid = ''u'', seqno = 10, safeToBootstrap = True\<rparr>)],
      recoveredEntries = [], bootstrapping = None, podsRestarted = False\<rparr>"

definition fallbackRecord :: recoveryRecord where
  "fallbackRecord =
     \<lparr>stateEntries = [(''p0'', \<lparr>uuid = ''u'', seqno = 5, safeToBootstrap = False\<rparr>)],
      recoveredEntries = [(''p0'', \<lparr>recoveredSeqno = 5\<rparr>), (''p1'', \<lparr>recoveredSeqno = 9\<rparr>),
                          (''p2'', \<lparr>recoveredSeqno = 3\<rparr>)],
      bootstrapping = None, podsRestarted = False\<rparr>"

definition safeRecord :: recoveryRecord where
  "safeRecord =
     \<lparr>stateEntries = [(''p0'', \<lparr>uuid = ''u'', seqno = 5, safeToBootstrap = False\<rparr>),
                      (''p1'', \<lparr>uuid = ''u'', seqno = 7, safeToBootstrap = True\<rparr>),
                      (''p2'', \<lparr>uuid = ''u'', seqno = 6, safeToBootstrap = False\<rparr>)],
      recoveredEntries = [], bootstrapping = None, podsRestarted = False\<rparr>"

text \<open>
  A cluster of three pods whose collaborators all answer at once: the agents of the
  pods with an index in \<open>down\<close> fail, the others report sequence number 10 and the
  safe-to-bootstrap flag \<open>safe\<close> gives for their index.
\<close>

definition clusterEnv :: "nat list \<Rightarrow> (nat \<Rightarrow> bool) \<Rightarrow> unit env" where
  "clusterEnv down safe =
     \<lparr>listPods = (\<lambda>w. (Inr [''mdb-1'', ''mdb-0'', ''mdb-2''], w)),
      getPod = (\<lambda>p w. (Inr PodRunning, w)),
      deletePod = (\<lambda>p w. (Inr (), w)),
      agentGetGaleraState =
        (\<lambda>i w. if i \<in> set down then (Inl (Failure ''agent unreachable''), w)
               else (Inr \<lparr>uuid = ''u'', seqno = 10, safeToBootstrap = safe i\<rparr>, w)),
      agentRecoveryEnable = (\<lambda>i w. (Inr (), w)),
      agentRecoveryStart = (\<lambda>i w. (Inr \<lparr>recoveredSeqno = 10\<rparr>, w)),
      agentRecoveryDisable = (\<lambda>i w. (Inr (), w)),
      agentBootstrapEnable = (\<lambda>i src w. (Inr (), w)),
      sqlClientForIndex = (\<lambda>i w. (Inr (), w)),
      isPodSynced = (\<lambda>i w. (Inr True, w)),
      statusPatch = (\<lambda>v w. (Inr (), w)),
      newAgentClientSet = Inr (),
      clientForIndex = (\<lambda>i. Inr ()),
      PodIndex =
        (\<lambda>p. if p = ''mdb-0'' then Inr 0 else if p = ''mdb-1'' then Inr 1
              else if p = ''mdb-2'' then Inr 2 else Inl (Failure ''invalid Pod name'')),
      PodName = (\<lambda>i. if i = 0 then ''mdb-0'' else if i = 1 then ''mdb-1'' else ''mdb-2'')\<rparr>"

definition clusterConfig :: config where
  "clusterConfig =
     \<lparr>replicas = 3, podRecoveryTimeout = Some 2, podSyncTimeout = Some 2,
      clusterBootstrapTimeout = 600\<rparr>"

definition startState :: "recoveryRecord option \<Rightarrow> unit st" where
  "startState status =
     \<lparr>world = (), clock = 1000, trace = [], rs = newRecoveryStatus status,
      mdbStatus = status, stored = status\<rparr>"

definition bootstrappedRecord :: "nat \<Rightarrow> bool \<Rightarrow> recoveryRecord" where
  "bootstrappedRecord t restarted =
     \<lparr>stateEntries = [], recoveredEntries = [],
      bootstrapping = Some \<lparr>bootstrapPod = ''mdb-1'', startedAt = t\<rparr>,
      podsRestarted = restarted\<rparr>"

definition restartedRecord :: recoveryRecord where
  "restartedRecord =
     \<lparr>stateEntries = [], recoveredEntries = [], bootstrapping = None, podsRestarted = True\<rparr>"

definition recordedRecord :: recoveryRecord where
  "recordedRecord =
     \<lparr>stateEntries = [(''mdb-0'', \<lparr>uuid = ''u'', seqno = 7, safeToBootstrap = False\<rparr>)],
      recoveredEntries = [], bootstrapping = None, podsRestarted = False\<rparr>"

definition mdb1Source :: bootstrapSource where
  "mdb1Source = \<lparr>srcPod = ''mdb-1'', srcSeqno = 10, srcOrigin = FromState\<rparr>"

definition unknownSource :: bootstrapSource where
  "unknownSource = \<lparr>srcPod = ''other'', srcSeqno = 10, srcOrigin = FromState\<rparr>"

text \<open>The same cluster when the Kubernetes API does not answer the listing of the pods.\<close>

definition apiDownEnv :: "unit env" where
  "apiDownEnv =
     (clusterEnv [] (\<lambda>i. i = 1))\<lparr>listPods := (\<lambda>w. (Inl (Failure ''api unavailable''), w))\<rparr>"

section \<open>Properties of the selector\<close>

lemma pickBest_None: "pickBest cs = None \<longleftrightarrow> cs = []"
  by (induction cs) (auto split: option.splits)

lemma pickBest_mem: "pickBest cs = Some c \<Longrightarrow> c \<in> set cs"
  by (induction cs arbitrary: c) (auto split: option.splits if_splits)

lemma pickBest_max:
  "pickBest cs = Some c \<Longrightarrow> d \<in> set cs \<Longrightarrow>
     snd d < snd c \<or> (snd d = snd c \<and> fst c \<le> fst d)"
proof (induction cs arbitrary: c)
  case Nil
  then show ?case by simp
next
  case (Cons a cs)
  show ?case
  proof (cases "pickBest cs")
    case None
    then have "cs = []" by (simp add: pickBest_None)
    with Cons.prems None show ?thesis by auto
  next
    case (Some b)
    note ih = Cons.IH [OF Some]
    show ?thesis
    proof (cases "better a b")
      case True
      with Some Cons.prems have c: "c = a" by simp
      show ?thesis
      proof (cases "d = a")
        case True
        with c show ?thesis by simp
      next
        case False
        with Cons.prems have "d \<in> set cs" by simp
        from ih [OF this] \<open>better a b\<close> c show ?thesis
          by (auto simp: better_def)
      qed
    next
      case False
      with Some Cons.prems have c: "c = b" by simp
      show ?thesis
      proof (cases "d = a")
        case True
        with c False show ?thesis by (auto simp: better_def)
      next
        case False
        with Cons.prems have "d \<in> set cs" by simp
        from ih [OF this] c show ?thesis by simp
      qed
    qed
  qed
qed

lemma states_emptyRecord [simp]: "states emptyRecord = Map.empty"
  by (simp add: states_def emptyRecord_def)

lemma recovered_emptyRecord [simp]: "recovered emptyRecord = Map.empty"
  by (simp add: recovered_def emptyRecord_def)

lemma states_setState [simp]: "states (setState p g r) = (states r)(p \<mapsto> g)"
  by (simp add: states_def setState_def update_conv')

lemma recovered_setState [simp]: "recovered (setState p g r) = recovered r"
  by (simp add: recovered_def setState_def)

lemma states_setRecovered [simp]: "states (setRecovered p b r) = states r"
  by (simp add: states_def setRecovered_def)

lemma recovered_setRecovered [simp]: "recovered (setRecovered p b r) = (recovered r)(p \<mapsto> b)"
  by (simp add: recovered_def setRecovered_def update_conv')

lemma bootstrapping_setState [simp]: "bootstrapping (setState p g r) = bootstrapping r"
  by (simp add: setState_def)

lemma podsRestarted_setState [simp]: "podsRestarted (setState p g r) = podsRestarted r"
  by (simp add: setState_def)

lemma states_empty_iff: "states r = Map.empty \<longleftrightarrow> stateEntries r = []"
  by (cases "stateEntries r") (auto simp: states_def)

lemma recovered_empty_iff: "recovered r = Map.empty \<longleftrightarrow> recoveredEntries r = []"
  by (cases "recoveredEntries r") (auto simp: recovered_def)

lemma stateKeys_set: "p \<in> set (stateKeys r) \<longleftrightarrow> states r p \<noteq> None"
  by (simp add: stateKeys_def states_def map_of_eq_None_iff)

lemma recoveredKeys_set: "p \<in> set (recoveredKeys r) \<longleftrightarrow> recovered r p \<noteq> None"
  by (simp add: recoveredKeys_def recovered_def map_of_eq_None_iff)

lemma safeCandidates_over:
  "(p, n) \<in> set (concat (map
       (\<lambda>p. case states r p of
               Some st \<Rightarrow> if safeToBootstrap st then [(p, seqno st)] else []
             | None \<Rightarrow> []) keys)) \<longleftrightarrow>
     p \<in> set keys \<and> (\<exists>st. states r p = Some st \<and> safeToBootstrap st \<and> seqno st = n)"
proof (induction keys)
  case Nil
  show ?case by simp
next
  case (Cons q qs)
  show ?case
  proof (cases "states r q")
    case None
    with Cons show ?thesis by auto
  next
    case (Some st)
    with Cons show ?thesis by (cases "safeToBootstrap st") auto
  qed
qed

lemma recoveredCandidates_over:
  "(p, n) \<in> set (concat (map
       (\<lambda>p. case recovered r p of
               Some b \<Rightarrow> [(p, recoveredSeqno b)]
             | None \<Rightarrow> []) keys)) \<longleftrightarrow>
     p \<in> set keys \<and> (\<exists>b. recovered r p = Some b \<and> recoveredSeqno b = n)"
proof (induction keys)
  case Nil
  show ?case by simp
next
  case (Cons q qs)
  then show ?case by (cases "recovered r q") auto
qed

lemma safeCandidates_set:
  "(p, n) \<in> set (safeCandidates r) \<longleftrightarrow>
     (\<exists>st. states r p = Some st \<and> safeToBootstrap st \<and> seqno st = n)"
  unfolding safeCandidates_def safeCandidates_over by (auto simp: stateKeys_set)

lemma recoveredCandidates_set:
  "(p, n) \<in> set (recoveredCandidates r) \<longleftrightarrow>
     (\<exists>b. recovered r p = Some b \<and> recoveredSeqno b = n)"
  unfolding recoveredCandidates_def recoveredCandidates_over by (auto simp: recoveredKeys_set)

lemma no_candidates: "cs = [] \<longleftrightarrow> (\<forall>p n. (p, n) \<notin> set cs)"
  by (cases cs) auto

text \<open>
  C1. For every pair of \<open>states\<close> and \<open>recovered\<close> maps the selector returns, among the
  pods whose recorded state is safe to bootstrap, the one with the highest sequence
  number, the smallest pod name among equal numbers; when no pod has such a state, the
  pod with the highest recovered sequence number, with the same tie-break; and when
  there is no candidate at all, no source and no error.
\<close>

theorem bootstrapSource_selects:
  "((\<exists>p st. states r p = Some st \<and> safeToBootstrap st) \<longrightarrow>
      (\<exists>p st. bootstrapSource r =
                 Inr (Some \<lparr>srcPod = p, srcSeqno = seqno st, srcOrigin = FromState\<rparr>) \<and>
               states r p = Some st \<and> safeToBootstrap st \<and>
               (\<forall>q t. states r q = Some t \<and> safeToBootstrap t \<longrightarrow>
                  seqno t < seqno st \<or> (seqno t = seqno st \<and> p \<le> q)))) \<and>
   (\<not> (\<exists>p st. states r p = Some st \<and> safeToBootstrap st) \<and>
    (\<exists>p b. recovered r p = Some b) \<longrightarrow>
      (\<exists>p b. bootstrapSource r =
                 Inr (Some \<lparr>srcPod = p, srcSeqno = recoveredSeqno b, srcOrigin = FromRecovered\<rparr>) \<and>
               recovered r p = Some b \<and>
               (\<forall>q c. recovered r q = Some c \<longrightarrow>
                  recoveredSeqno c < recoveredSeqno b \<or>
                  (recoveredSeqno c = recoveredSeqno b \<and> p \<le> q)))) \<and>
   (\<not> (\<exists>p st. states r p = Some st \<and> safeToBootstrap st) \<and>
    \<not> (\<exists>p b. recovered r p = Some b) \<longrightarrow>
      bootstrapSource r = Inr None)"
proof (intro conjI impI)
  assume "\<exists>p st. states r p = Some st \<and> safeToBootstrap st"
  then obtain p0 n0 where "(p0, n0) \<in> set (safeCandidates r)"
    by (auto simp: safeCandidates_set)
  then have "pickBest (safeCandidates r) \<noteq> None"
    by (auto simp: pickBest_None)
  then obtain p n where best: "pickBest (safeCandidates r) = Some (p, n)"
    by auto
  from pickBest_mem [OF best] obtain st where
    st: "states r p = Some st" "safeToBootstrap st" "seqno st = n"
    by (auto simp: safeCandidates_set)
  have "\<forall>q t. states r q = Some t \<and> safeToBootstrap t \<longrightarrow>
          seqno t < seqno st \<or> (seqno t = seqno st \<and> p \<le> q)"
  proof (intro allI impI)
    fix q t
    assume "states r q = Some t \<and> safeToBootstrap t"
    then have "(q, seqno t) \<in> set (safeCandidates r)"
      by (auto simp: safeCandidates_set)
    from pickBest_max [OF best this] st(3)
    show "seqno t < seqno st \<or> (seqno t = seqno st \<and> p \<le> q)" by simp
  qed
  moreover have "bootstrapSource r =
      Inr (Some \<lparr>srcPod = p, srcSeqno = seqno st, srcOrigin = FromState\<rparr>)"
    using best st(3) by (simp add: bootstrapSource_def)
  ultimately show "\<exists>p st. bootstrapSource r =
                 Inr (Some \<lparr>srcPod = p, srcSeqno = seqno st, srcOrigin = FromState\<rparr>) \<and>
               states r p = Some st \<and> safeToBootstrap st \<and>
               (\<forall>q t. states r q = Some t \<and> safeToBootstrap t \<longrightarrow>
                  seqno t < seqno st \<or> (seqno t = seqno st \<and> p \<le> q))"
    using st by blast
next
  assume a: "\<not> (\<exists>p st. states r p = Some st \<and> safeToBootstrap st) \<and>
    (\<exists>p b. recovered r p = Some b)"
  then have "\<forall>p n. (p, n) \<notin> set (safeCandidates r)"
    by (auto simp: safeCandidates_set)
  then have nosafe: "pickBest (safeCandidates r) = None"
    using no_candidates [of "safeCandidates r"] by (simp add: pickBest_None)
  from a obtain p0 n0 where "(p0, n0) \<in> set (recoveredCandidates r)"
    by (auto simp: recoveredCandidates_set)
  then have "pickBest (recoveredCandidates r) \<noteq> None"
    by (auto simp: pickBest_None)
  then obtain p n where best: "pickBest (recoveredCandidates r) = Some (p, n)"
    by auto
  from pickBest_mem [OF best] obtain b where
    b: "recovered r p = Some b" "recoveredSeqno b = n"
    by (auto simp: recoveredCandidates_set)
  have "\<forall>q c. recovered r q = Some c \<longrightarrow>
          recoveredSeqno c < recoveredSeqno b \<or> (recoveredSeqno c = recoveredSeqno b \<and> p \<le> q)"
  proof (intro allI impI)
    fix q c
    assume "recovered r q = Some c"
    then have "(q, recoveredSeqno c) \<in> set (recoveredCandidates r)"
      by (auto simp: recoveredCandidates_set)
    from pickBest_max [OF best this] b(2)
    show "recoveredSeqno c < recoveredSeqno b \<or> (recoveredSeqno c = recoveredSeqno b \<and> p \<le> q)"
      by simp
  qed
  moreover have "bootstrapSource r =
      Inr (Some \<lparr>srcPod = p, srcSeqno = recoveredSeqno b, srcOrigin = FromRecovered\<rparr>)"
    using best nosafe b(2) by (simp add: bootstrapSource_def)
  ultimately show "\<exists>p b. bootstrapSource r =
                 Inr (Some \<lparr>srcPod = p, srcSeqno = recoveredSeqno b, srcOrigin = FromRecovered\<rparr>) \<and>
               recovered r p = Some b \<and>
               (\<forall>q c. recovered r q = Some c \<longrightarrow>
                  recoveredSeqno c < recoveredSeqno b \<or>
                  (recoveredSeqno c = recoveredSeqno b \<and> p \<le> q))"
    using b by blast
next
  assume a: "\<not> (\<exists>p st. states r p = Some st \<and> safeToBootstrap st) \<and>
    \<not> (\<exists>p b. recovered r p = Some b)"
  then have "\<forall>p n. (p, n) \<notin> set (safeCandidates r)"
    by (auto simp: safeCandidates_set)
  then have nosafe: "pickBest (safeCandidates r) = None"
    using no_candidates [of "safeCandidates r"] by (simp add: pickBest_None)
  from a have "\<forall>p n. (p, n) \<notin> set (recoveredCandidates r)"
    by (auto simp: recoveredCandidates_set)
  then have "pickBest (recoveredCandidates r) = None"
    using no_candidates [of "recoveredCandidates r"] by (simp add: pickBest_None)
  with nosafe show "bootstrapSource r = Inr None"
    by (simp add: bootstrapSource_def)
qed

lemma states_tieRecord:
  "states tieRecord =
     [''p2'' \<mapsto> \<lparr>uuid = ''u'', seqno = 10, safeToBootstrap = True\<rparr>,
      ''p0'' \<mapsto> \<lparr>uuid = ''u'', seqno = 10, safeToBootstrap = True\<rparr>]"
  by (rule ext) (simp add: states_def tieRecord_def)

lemma states_safeRecord:
  "states safeRecord =
     [''p2'' \<mapsto> \<lparr>uuid = ''u'', seqno = 6, safeToBootstrap = False\<rparr>,
      ''p1'' \<mapsto> \<lparr>uuid = ''u'', seqno = 7, safeToBootstrap = True\<rparr>,
      ''p0'' \<mapsto> \<lparr>uuid = ''u'', seqno = 5, safeToBootstrap = False\<rparr>]"
  by (rule ext) (simp add: states_def safeRecord_def)

lemma states_fallbackRecord:
  "states fallbackRecord = [''p0'' \<mapsto> \<lparr>uuid = ''u'', seqno = 5, safeToBootstrap = False\<rparr>]"
  by (rule ext) (simp add: states_def fallbackRecord_def)

lemma recovered_fallbackRecord:
  "recovered fallbackRecord =
     [''p2'' \<mapsto> \<lparr>recoveredSeqno = 3\<rparr>, ''p1'' \<mapsto> \<lparr>recoveredSeqno = 9\<rparr>,
      ''p0'' \<mapsto> \<lparr>recoveredSeqno = 5\<rparr>]"
  by (rule ext) (simp add: recovered_def fallbackRecord_def)

theorem bootstrapSource_selects_witness:
  "bootstrapSource tieRecord =
     Inr (Some \<lparr>srcPod = ''p0'', srcSeqno = 10, srcOrigin = FromState\<rparr>) \<and>
   bootstrapSource safeRecord =
     Inr (Some \<lparr>srcPod = ''p1'', srcSeqno = 7, srcOrigin = FromState\<rparr>) \<and>
   bootstrapSource fallbackRecord =
     Inr (Some \<lparr>srcPod = ''p1'', srcSeqno = 9, srcOrigin = FromRecovered\<rparr>) \<and>
   bootstrapSource emptyRecord = Inr None"
proof (intro conjI)
  have "\<exists>p st. states tieRecord p = Some st \<and> safeToBootstrap st"
    by (rule exI [of _ "''p0''"]) (simp add: states_tieRecord)
  with bootstrapSource_selects [of tieRecord]
  obtain p st where sel:
    "bootstrapSource tieRecord =
       Inr (Some \<lparr>srcPod = p, srcSeqno = seqno st, srcOrigin = FromState\<rparr>)"
    "states tieRecord p = Some st"
    "\<forall>q t. states tieRecord q = Some t \<and> safeToBootstrap t \<longrightarrow>
       seqno t < seqno st \<or> (seqno t = seqno st \<and> p \<le> q)"
    by blast
  from sel(2) have n: "seqno st = 10" and p: "p = ''p0'' \<or> p = ''p2''"
    by (auto simp: states_tieRecord split: if_splits)
  from sel(3) [rule_format, of "''p0''" "\<lparr>uuid = ''u'', seqno = 10, safeToBootstrap = True\<rparr>"]
  have "p \<le> ''p0''"
    using n by (simp add: states_tieRecord)
  with p have "p = ''p0''" by auto
  with sel(1) n show "bootstrapSource tieRecord =
     Inr (Some \<lparr>srcPod = ''p0'', srcSeqno = 10, srcOrigin = FromState\<rparr>)" by simp
next
  have "\<exists>p st. states safeRecord p = Some st \<and> safeToBootstrap st"
    by (rule exI [of _ "''p1''"]) (simp add: states_safeRecord)
  with bootstrapSource_selects [of safeRecord]
  obtain p st where sel:
    "bootstrapSource safeRecord =
       Inr (Some \<lparr>srcPod = p, srcSeqno = seqno st, srcOrigin = FromState\<rparr>)"
    "states safeRecord p = Some st" "safeToBootstrap st"
    by blast
  from sel(2,3) have "p = ''p1'' \<and> seqno st = 7"
    by (auto simp: states_safeRecord split: if_splits)
  with sel(1) show "bootstrapSource safeRecord =
     Inr (Some \<lparr>srcPod = ''p1'', srcSeqno = 7, srcOrigin = FromState\<rparr>)" by simp
next
  have no: "\<not> (\<exists>p st. states fallbackRecord p = Some st \<and> safeToBootstrap st)"
    by (auto simp: states_fallbackRecord split: if_splits)
  have "\<exists>p b. recovered fallbackRecord p = Some b"
    by (rule exI [of _ "''p0''"]) (simp add: recovered_fallbackRecord)
  with no bootstrapSource_selects [of fallbackRecord]
  obtain p b where sel:
    "bootstrapSource fallbackRecord =
       Inr (Some \<lparr>srcPod = p, srcSeqno = recoveredSeqno b, srcOrigin = FromRecovered\<rparr>)"
    "recovered fallbackRecord p = Some b"
    "\<forall>q c. recovered fallbackRecord q = Some c \<longrightarrow>
       recoveredSeqno c < recoveredSeqno b \<or> (recoveredSeqno c = recoveredSeqno b \<and> p \<le> q)"
    by blast
  from sel(3) [rule_format, of "''p1''" "\<lparr>recoveredSeqno = 9\<rparr>"]
  have "9 \<le> recoveredSeqno b"
    by (auto simp: recovered_fallbackRecord)
  with sel(2) have "p = ''p1'' \<and> recoveredSeqno b = 9"
    by (auto simp: recovered_fallbackRecord split: if_splits)
  with sel(1) show "bootstrapSource fallbackRecord =
     Inr (Some \<lparr>srcPod = ''p1'', srcSeqno = 9, srcOrigin = FromRecovered\<rparr>)" by simp
next
  have "\<not> (\<exists>p st. states emptyRecord p = Some st \<and> safeToBootstrap st)"
    by simp
  moreover have "\<not> (\<exists>p b. recovered emptyRecord p = Some b)"
    by simp
  ultimately show "bootstrapSource emptyRecord = Inr None"
    using bootstrapSource_selects [of emptyRecord] by blast
qed

section \<open>Runs only extend the trace\<close>

lemma steps_refl: "R (rs s) (rs s) \<Longrightarrow> steps P R s s"
  by (simp add: steps_def)

lemma steps_trans:
  assumes "steps P R s s1" "steps P R s1 s2"
    and "\<And>a b c. R a b \<Longrightarrow> R b c \<Longrightarrow> R a c"
  shows "steps P R s s2"
  using assms unfolding steps_def by (metis append.assoc list_all_append)

lemma steps_clock: "steps P R s s1 \<Longrightarrow> steps P R s (s1\<lparr>clock := c\<rparr>)"
  by (simp add: steps_def)

lemma steps_mono:
  "steps P R s s1 \<Longrightarrow> (\<And>x. P x \<Longrightarrow> P' x) \<Longrightarrow> (\<And>a b. R a b \<Longrightarrow> R' a b) \<Longrightarrow> steps P' R' s s1"
  unfolding steps_def by (auto simp: list_all_iff)

lemma call_steps:
  "call ev f s = (r, s1) \<Longrightarrow> P (ev, succeeded r) \<Longrightarrow> R (rs s) (rs s) \<Longrightarrow> steps P R s s1"
  by (auto simp: call_def steps_def split: prod.splits)

lemma call_trace:
  "call ev f s = (r, s1) \<Longrightarrow> trace s1 = trace s @ [(ev, succeeded r)] \<and> rs s1 = rs s \<and>
     mdbStatus s1 = mdbStatus s \<and> stored s1 = stored s \<and> clock s1 = clock s"
  by (auto simp: call_def split: prod.splits)

lemma poll_result:
  assumes "poll d body s = (r, s')"
    and refl: "\<And>s. Q s s"
    and trans: "\<And>s s1 s2. Q s s1 \<Longrightarrow> Q s1 s2 \<Longrightarrow> Q s s2"
    and clk: "\<And>s s1 c. Q s s1 \<Longrightarrow> Q s (s1\<lparr>clock := c\<rparr>)"
    and fail: "\<And>s e s1. body s = (Inl e, s1) \<Longrightarrow> Q s s1"
  shows "(r = Inl DeadlineExceeded \<and> Q s s') \<or>
         (\<exists>s0 u. r = Inr () \<and> Q s s0 \<and> body s0 = (Inr u, s'))"
  using assms(1) fail
proof (induction d body s rule: poll.induct)
  case (1 deadline body s)
  note fl = "1.prems"(2)
  show ?case
  proof (cases "deadline \<le> clock s")
    case True
    with "1.prems"(1) refl show ?thesis by (simp add: poll.simps)
  next
    case False
    obtain r1 s1 where b: "body s = (r1, s1)" by (cases "body s")
    show ?thesis
    proof (cases r1)
      case (Inr u)
      with b False "1.prems"(1) refl show ?thesis by (auto simp: poll.simps)
    next
      case (Inl e)
      let ?s2 = "s1\<lparr>clock := Suc (max (clock s) (clock s1))\<rparr>"
      from Inl b False "1.prems"(1) have p: "poll deadline body ?s2 = (r, s')"
        by (simp add: poll.simps)
      have ih: "(r = Inl DeadlineExceeded \<and> Q ?s2 s') \<or>
         (\<exists>s0 u. r = Inr () \<and> Q ?s2 s0 \<and> body s0 = (Inr u, s'))"
        using "1.IH" [of r1 s1 e] False b Inl p fl by simp
      from fl b Inl have "Q s s1" by simp
      then have q: "Q s ?s2" by (rule clk)
      from ih show ?thesis
      proof
        assume "r = Inl DeadlineExceeded \<and> Q ?s2 s'"
        with q trans show ?thesis by blast
      next
        assume "\<exists>s0 u. r = Inr () \<and> Q ?s2 s0 \<and> body s0 = (Inr u, s')"
        with q trans show ?thesis by blast
      qed
    qed
  qed
qed


lemma poll_steps:
  assumes p: "poll d body s = (r, s')"
    and body: "\<And>s r s1. body s = (r, s1) \<Longrightarrow> steps P R s s1"
    and refl: "\<And>a. R a a"
    and trans: "\<And>a b c. R a b \<Longrightarrow> R b c \<Longrightarrow> R a c"
  shows "steps P R s s'"
proof -
  have "(r = Inl DeadlineExceeded \<and> steps P R s s') \<or>
        (\<exists>s0 u. r = Inr () \<and> steps P R s s0 \<and> body s0 = (Inr u, s'))"
  proof (rule poll_result [OF p])
    show "\<And>s. steps P R s s" by (simp add: steps_refl refl)
    show "\<And>s s1 s2. steps P R s s1 \<Longrightarrow> steps P R s1 s2 \<Longrightarrow> steps P R s s2"
      using steps_trans trans by blast
    show "\<And>s s1 c. steps P R s s1 \<Longrightarrow> steps P R s (s1\<lparr>clock := c\<rparr>)"
      by (rule steps_clock)
    show "\<And>s e s1. body s = (Inl e, s1) \<Longrightarrow> steps P R s s1" by (rule body)
  qed
  then show ?thesis
  proof
    assume "r = Inl DeadlineExceeded \<and> steps P R s s'"
    then show ?thesis by simp
  next
    assume "\<exists>s0 u. r = Inr () \<and> steps P R s s0 \<and> body s0 = (Inr u, s')"
    then obtain s0 u where "steps P R s s0" "body s0 = (Inr u, s')" by blast
    with body [of s0 "Inr u" s'] show ?thesis
      using steps_trans trans by blast
  qed
qed

lemma pollUntilPodRunning_steps:
  assumes "pollUntilPodRunning env ctx k s = (r, s')"
  shows "steps (podOp k) (=) s s'"
proof (rule poll_steps [OF assms [unfolded pollUntilPodRunning_def]])
  fix s r s1
  assume "(case call (GetPod k) (getPod env k) s of
            (Inl e, s1) \<Rightarrow> (Inl (PodError ''error getting Pod'' k e), s1)
          | (Inr phase, s1) \<Rightarrow>
              if phase = PodRunning then (Inr (), s1) else (Inl (Failure ''Pod not running''), s1)) =
         (r, s1)"
  then obtain r0 where "call (GetPod k) (getPod env k) s = (r0, s1)"
    by (auto split: prod.splits sum.splits if_splits)
  then show "steps (podOp k) (=) s s1"
    by (rule call_steps) (simp_all add: podOp_def)
qed simp_all

lemma ensurePodRunning_steps:
  assumes "ensurePodRunning env ctx k s = (r, s')"
  shows "steps (podOp k) (=) s s'"
proof -
  obtain r1 s1 where c1: "call (GetPod k) (getPod env k) s = (r1, s1)"
    by (cases "call (GetPod k) (getPod env k) s")
  then have st1: "steps (podOp k) (=) s s1"
    by (rule call_steps) (simp_all add: podOp_def)
  show ?thesis
  proof (cases "r1 = Inr PodNotRunning")
    case False
    with assms c1 have "s' = s1"
      by (cases r1; cases "projr r1") (auto simp: ensurePodRunning_def)
    with st1 show ?thesis by simp
  next
    case True
    obtain r2 s2 where c2: "call (DeletePod k) (deletePod env k) s1 = (r2, s2)"
      by (cases "call (DeletePod k) (deletePod env k) s1")
    then have st2: "steps (podOp k) (=) s1 s2"
      by (rule call_steps) (simp_all add: podOp_def)
    have st12: "steps (podOp k) (=) s s2"
      using steps_trans [OF st1 st2] by simp
    show ?thesis
    proof (cases r2)
      case (Inl e)
      with assms c1 c2 True have "s' = s2" by (simp add: ensurePodRunning_def)
      with st12 show ?thesis by simp
    next
      case (Inr u)
      with assms c1 c2 True have "pollUntilPodRunning env ctx k s2 = (r, s')"
        by (simp add: ensurePodRunning_def)
      from steps_trans [OF st12 pollUntilPodRunning_steps [OF this]] show ?thesis by simp
    qed
  qed
qed


lemma podOp_aboutPod: "podOp q x \<Longrightarrow> aboutPod q x"
  by (auto simp: podOp_def aboutPod_def)

lemma sameExcept_refl: "sameExcept q a a"
  by (simp add: sameExcept_def)

lemma sameExcept_trans: "sameExcept q a b \<Longrightarrow> sameExcept q b c \<Longrightarrow> sameExcept q a c"
  by (simp add: sameExcept_def)

lemma ensurePodRunning_about:
  "ensurePodRunning env ctx q s = (r, s') \<Longrightarrow> steps (aboutPod q) (sameExcept q) s s'"
  by (erule steps_mono [OF ensurePodRunning_steps]) (simp_all add: podOp_aboutPod sameExcept_refl)

lemma stateBody_steps:
  assumes "(case ensurePodRunning env ctx q s of
              (Inl e, s1) \<Rightarrow> (Inl e, s1)
            | (Inr u, s1) \<Rightarrow>
                (case call (GetGaleraState q i) (agentGetGaleraState env i) s1 of
                   (Inl e, s2) \<Rightarrow> (Inl e, s2)
                 | (Inr galeraState, s2) \<Rightarrow>
                     (Inr (), s2\<lparr>rs := setState q galeraState (rs s2)\<rparr>))) = (r, s')"
  shows "steps (aboutPod q) (sameExcept q) s s'"
proof -
  obtain r1 s1 where e: "ensurePodRunning env ctx q s = (r1, s1)"
    by (cases "ensurePodRunning env ctx q s")
  note st1 = ensurePodRunning_about [OF e]
  show ?thesis
  proof (cases r1)
    case (Inl e1)
    with assms e have "s' = s1" by simp
    with st1 show ?thesis by simp
  next
    case (Inr u)
    obtain r2 s2 where c: "call (GetGaleraState q i) (agentGetGaleraState env i) s1 = (r2, s2)"
      by (cases "call (GetGaleraState q i) (agentGetGaleraState env i) s1")
    then have st2: "steps (aboutPod q) (sameExcept q) s1 s2"
      by (rule call_steps) (simp_all add: aboutPod_def sameExcept_refl)
    have st12: "steps (aboutPod q) (sameExcept q) s s2"
      using steps_trans [OF st1 st2] sameExcept_trans by blast
    show ?thesis
    proof (cases r2)
      case (Inl e2)
      with assms e c Inr have "s' = s2" by simp
      with st12 show ?thesis by simp
    next
      case (Inr g)
      with assms e c \<open>r1 = Inr u\<close> have s': "s' = s2\<lparr>rs := setState q g (rs s2)\<rparr>" by simp
      from st12 show ?thesis
        unfolding s' steps_def by (auto simp: sameExcept_def)
    qed
  qed
qed

lemma stateBody_success:
  assumes "(case ensurePodRunning env ctx q s of
              (Inl e, s1) \<Rightarrow> (Inl e, s1)
            | (Inr u, s1) \<Rightarrow>
                (case call (GetGaleraState q i) (agentGetGaleraState env i) s1 of
                   (Inl e, s2) \<Rightarrow> (Inl e, s2)
                 | (Inr galeraState, s2) \<Rightarrow>
                     (Inr (), s2\<lparr>rs := setState q galeraState (rs s2)\<rparr>))) = (Inr u, s')"
  shows "states (rs s') q \<noteq> None"
  using assms by (auto split: prod.splits sum.splits)

lemma galeraStateTask_steps:
  assumes "galeraStateTask env cfg q s = (r, s')"
  shows "steps (aboutPod q) (sameExcept q) s s'"
proof (cases "PodIndex env q")
  case (Inl e)
  with assms have "s' = s" by (simp add: galeraStateTask_def)
  then show ?thesis by (simp add: steps_refl sameExcept_refl)
next
  case (Inr i)
  note idx = this
  show ?thesis
  proof (cases "clientForIndex env i")
    case (Inl e)
    with assms idx have "s' = s" by (simp add: galeraStateTask_def)
    then show ?thesis by (simp add: steps_refl sameExcept_refl)
  next
    case (Inr client)
    let ?ctx = "clock s + recoveryTimeout cfg"
    let ?body = "\<lambda>s. case ensurePodRunning env ?ctx q s of
              (Inl e, s1) \<Rightarrow> (Inl e, s1)
            | (Inr u, s1) \<Rightarrow>
                (case call (GetGaleraState q i) (agentGetGaleraState env i) s1 of
                   (Inl e, s2) \<Rightarrow> (Inl e, s2)
                 | (Inr galeraState, s2) \<Rightarrow>
                     (Inr (), s2\<lparr>rs := setState q galeraState (rs s2)\<rparr>))"
    obtain r1 s1 where p: "poll ?ctx ?body s = (r1, s1)"
      by (cases "poll ?ctx ?body s")
    with assms idx Inr have "s' = s1"
      by (cases r1) (simp_all add: galeraStateTask_def Let_def)
    moreover have "steps (aboutPod q) (sameExcept q) s s1"
      by (rule poll_steps [OF p]) (auto intro: stateBody_steps sameExcept_refl sameExcept_trans)
    ultimately show ?thesis by simp
  qed
qed

lemma galeraStateTask_success:
  assumes "galeraStateTask env cfg q s = (Inr u, s')"
  shows "states (rs s') q \<noteq> None"
proof (cases "PodIndex env q")
  case (Inl e)
  with assms show ?thesis by (simp add: galeraStateTask_def)
next
  case (Inr i)
  note idx = this
  show ?thesis
  proof (cases "clientForIndex env i")
    case (Inl e)
    with assms idx show ?thesis by (simp add: galeraStateTask_def)
  next
    case (Inr client)
    let ?ctx = "clock s + recoveryTimeout cfg"
    let ?body = "\<lambda>s. case ensurePodRunning env ?ctx q s of
              (Inl e, s1) \<Rightarrow> (Inl e, s1)
            | (Inr u, s1) \<Rightarrow>
                (case call (GetGaleraState q i) (agentGetGaleraState env i) s1 of
                   (Inl e, s2) \<Rightarrow> (Inl e, s2)
                 | (Inr galeraState, s2) \<Rightarrow>
                     (Inr (), s2\<lparr>rs := setState q galeraState (rs s2)\<rparr>))"
    obtain r1 s1 where p: "poll ?ctx ?body s = (r1, s1)"
      by (cases "poll ?ctx ?body s")
    with assms idx Inr have eq: "s' = s1" "r1 = Inr ()"
      by (cases r1; simp add: galeraStateTask_def Let_def)+
    have "(r1 = Inl DeadlineExceeded \<and> True) \<or>
          (\<exists>s0 u. r1 = Inr () \<and> True \<and> ?body s0 = (Inr u, s1))"
      by (rule poll_result [OF p, where Q = "\<lambda>s s'. True"]) simp_all
    with eq obtain s0 u0 where "?body s0 = (Inr u0, s')" by auto
    then show ?thesis by (rule stateBody_success)
  qed
qed

lemma galeraStateTask_error:
  assumes "galeraStateTask env cfg q s = (Inl e, s')"
  shows "\<exists>c e'. e = PodError c q e'"
  using assms
  by (auto simp: galeraStateTask_def Let_def split: sum.splits prod.splits)


lemma spawnStateTasks_skips:
  "states (rs s) p = Some g \<Longrightarrow> spawnStateTasks env cfg pods s = (results, s') \<Longrightarrow>
     p \<notin> fst ` set results \<and>
     steps (\<lambda>x. \<not> aboutPod p x) (\<lambda>r r'. states r' p = states r p) s s'"
proof (induction pods arbitrary: s results s')
  case Nil
  then show ?case by (simp add: steps_def)
next
  case (Cons q pods)
  show ?case
  proof (cases "states (rs s) q \<noteq> None")
    case True
    with Cons.prems have "spawnStateTasks env cfg pods s = (results, s')" by simp
    from Cons.IH [OF Cons.prems(1) this] show ?thesis .
  next
    case False
    with Cons.prems(1) have qp: "q \<noteq> p" by auto
    obtain r1 s1 where t: "galeraStateTask env cfg q s = (r1, s1)"
      by (cases "galeraStateTask env cfg q s")
    obtain results1 s2 where sp: "spawnStateTasks env cfg pods s1 = (results1, s2)"
      by (cases "spawnStateTasks env cfg pods s1")
    from Cons.prems(2) False t sp have res: "results = (q, r1) # results1" "s' = s2"
      by auto
    have st1: "steps (\<lambda>x. \<not> aboutPod p x) (\<lambda>r r'. states r' p = states r p) s s1"
      by (rule steps_mono [OF galeraStateTask_steps [OF t]])
        (use qp in \<open>auto simp: aboutPod_def sameExcept_def\<close>)
    then have "states (rs s1) p = Some g"
      using Cons.prems(1) by (simp add: steps_def)
    from Cons.IH [OF this sp]
    have ih: "p \<notin> fst ` set results1"
      "steps (\<lambda>x. \<not> aboutPod p x) (\<lambda>r r'. states r' p = states r p) s1 s2"
      by simp_all
    from steps_trans [OF st1 ih(2)] have "steps (\<lambda>x. \<not> aboutPod p x) (\<lambda>r r'. states r' p = states r p) s s2"
      by simp
    with ih(1) res qp show ?thesis by simp
  qed
qed

lemma spawnStateTasks_recorded:
  "spawnStateTasks env cfg pods s = (results, s') \<Longrightarrow> (p, Inr u) \<in> set results \<Longrightarrow>
     states (rs s') p \<noteq> None"
proof (induction pods arbitrary: s results s')
  case Nil
  then show ?case by simp
next
  case (Cons q pods)
  show ?case
  proof (cases "states (rs s) q \<noteq> None")
    case True
    with Cons.prems have "spawnStateTasks env cfg pods s = (results, s')" by simp
    from Cons.IH [OF this Cons.prems(2)] show ?thesis .
  next
    case False
    obtain r1 s1 where t: "galeraStateTask env cfg q s = (r1, s1)"
      by (cases "galeraStateTask env cfg q s")
    obtain results1 s2 where sp: "spawnStateTasks env cfg pods s1 = (results1, s2)"
      by (cases "spawnStateTasks env cfg pods s1")
    from Cons.prems(1) False t sp have res: "results = (q, r1) # results1" "s' = s2"
      by auto
    show ?thesis
    proof (cases "(p, Inr u) \<in> set results1")
      case True
      from Cons.IH [OF sp True] res show ?thesis by simp
    next
      case False
      with Cons.prems(2) res have "q = p" "r1 = Inr u" by auto
      with t have "states (rs s1) p \<noteq> None"
        using galeraStateTask_success by blast
      then obtain g where g: "states (rs s1) p = Some g" by auto
      from spawnStateTasks_skips [OF g sp] have "states (rs s2) p = states (rs s1) p"
        by (simp add: steps_def)
      with g res show ?thesis by simp
    qed
  qed
qed

lemma spawnStateTasks_errors:
  "spawnStateTasks env cfg pods s = (results, s') \<Longrightarrow> (q, Inl e) \<in> set results \<Longrightarrow>
     \<exists>c e'. e = PodError c q e'"
proof (induction pods arbitrary: s results s')
  case Nil
  then show ?case by simp
next
  case (Cons a pods)
  show ?case
  proof (cases "states (rs s) a \<noteq> None")
    case True
    with Cons.prems have "spawnStateTasks env cfg pods s = (results, s')" by simp
    from Cons.IH [OF this Cons.prems(2)] show ?thesis .
  next
    case False
    obtain r1 s1 where t: "galeraStateTask env cfg a s = (r1, s1)"
      by (cases "galeraStateTask env cfg a s")
    obtain results1 s2 where sp: "spawnStateTasks env cfg pods s1 = (results1, s2)"
      by (cases "spawnStateTasks env cfg pods s1")
    from Cons.prems(1) False t sp have res: "results = (a, r1) # results1"
      by auto
    show ?thesis
    proof (cases "(q, Inl e) \<in> set results1")
      case True
      from Cons.IH [OF sp True] show ?thesis .
    next
      case False
      with Cons.prems(2) res have "a = q" "r1 = Inl e" by auto
      with t show ?thesis using galeraStateTask_error by blast
    qed
  qed
qed

lemma spawnStateTasks_pods:
  "spawnStateTasks env cfg pods s = (results, s') \<Longrightarrow>
     fst ` set results = {p \<in> set pods. states (rs s) p = None}"
proof (induction pods arbitrary: s results s')
  case Nil
  then show ?case by auto
next
  case (Cons q pods)
  show ?case
  proof (cases "states (rs s) q \<noteq> None")
    case True
    with Cons.prems have "spawnStateTasks env cfg pods s = (results, s')" by simp
    from Cons.IH [OF this] True show ?thesis by auto
  next
    case False
    obtain r1 s1 where t: "galeraStateTask env cfg q s = (r1, s1)"
      by (cases "galeraStateTask env cfg q s")
    obtain results1 s2 where sp: "spawnStateTasks env cfg pods s1 = (results1, s2)"
      by (cases "spawnStateTasks env cfg pods s1")
    from Cons.prems(1) False t sp have res: "results = (q, r1) # results1"
      by auto
    from galeraStateTask_steps [OF t]
    have same: "\<And>p. p \<noteq> q \<Longrightarrow> states (rs s1) p = states (rs s) p"
      by (simp add: steps_def sameExcept_def)
    from Cons.IH [OF sp] have "fst ` set results1 = {p \<in> set pods. states (rs s1) p = None}" .
    with res same False show ?thesis by (auto; metis)
  qed
qed

lemma groupWait_first:
  "groupWait results = Inl e \<Longrightarrow>
     \<exists>before q after. results = before @ (q, Inl e) # after \<and>
                       list_all (\<lambda>x. succeeded (snd x)) before"
proof (induction results rule: groupWait.induct)
  case 1
  then show ?case by simp
next
  case (2 pod e0 results)
  then have "(pod, Inl e0) # results = [] @ (pod, Inl e) # results \<and>
             list_all (\<lambda>x. succeeded (snd x)) []" by simp
  then show ?case by blast
next
  case (3 pod u results)
  then obtain before q after where
    "results = before @ (q, Inl e) # after" "list_all (\<lambda>x. succeeded (snd x)) before"
    by auto
  then have "(pod, Inr u) # results = ((pod, Inr u) # before) @ (q, Inl e) # after \<and>
             list_all (\<lambda>x. succeeded (snd x)) ((pod, Inr u) # before)"
    by (simp add: succeeded_def)
  then show ?case by blast
qed

lemma groupWait_ok:
  "groupWait results = Inr u \<longleftrightarrow> list_all (\<lambda>x. succeeded (snd x)) results"
  by (induction results rule: groupWait.induct) (auto simp: succeeded_def)


section \<open>The state collector\<close>

lemmas scenario_defs =
  clusterEnv_def clusterConfig_def startState_def newRecoveryStatus_def emptyRecord_def

lemmas collector_defs =
  getGaleraState_def galeraStateTask_def recoveryTimeout_def ensurePodRunning_def call_def
  succeeded_def setState_def states_def recovered_def Let_def poll.simps

text \<open>
  C8. A pod whose name is present in \<open>states\<close> is skipped by the collector: no task is
  started for it, none of the calls the collector makes is about it (neither a query of
  its agent nor a get or delete of the pod), and its recorded state is the same
  afterwards, so that the same holds for the next invocation.
\<close>

theorem getGaleraState_skips_recorded:
  assumes "states (rs s) pod = Some g"
    and "getGaleraState env cfg pods s = (r, s')"
  shows "pod \<notin> fst ` set (fst (spawnStateTasks env cfg pods s)) \<and>
         (\<exists>evs. trace s' = trace s @ evs \<and> list_all (\<lambda>x. eventPod (fst x) \<noteq> Some pod) evs) \<and>
         states (rs s') pod = Some g"
proof -
  obtain results s1 where sp: "spawnStateTasks env cfg pods s = (results, s1)"
    by (cases "spawnStateTasks env cfg pods s")
  with assms(2) have s': "s' = s1" by (simp add: getGaleraState_def)
  from spawnStateTasks_skips [OF assms(1) sp] s' sp assms(1) show ?thesis
    by (simp add: steps_def aboutPod_def)
qed

theorem getGaleraState_skips_recorded_witness:
  "''mdb-0'' \<notin> fst ` set (fst (spawnStateTasks (clusterEnv [] (\<lambda>i. i = 1)) clusterConfig
                       [''mdb-0'', ''mdb-1'', ''mdb-2''] (startState (Some recordedRecord)))) \<and>
   (\<exists>evs. trace (snd (getGaleraState (clusterEnv [] (\<lambda>i. i = 1)) clusterConfig
                        [''mdb-0'', ''mdb-1'', ''mdb-2''] (startState (Some recordedRecord)))) =
             trace (startState (Some recordedRecord)) @ evs \<and>
          list_all (\<lambda>x. eventPod (fst x) \<noteq> Some ''mdb-0'') evs) \<and>
   states (rs (snd (getGaleraState (clusterEnv [] (\<lambda>i. i = 1)) clusterConfig
                     [''mdb-0'', ''mdb-1'', ''mdb-2''] (startState (Some recordedRecord)))))
     ''mdb-0'' = Some \<lparr>uuid = ''u'', seqno = 7, safeToBootstrap = False\<rparr>"
proof -
  have h: "states (rs (startState (Some recordedRecord))) ''mdb-0'' =
             Some \<lparr>uuid = ''u'', seqno = 7, safeToBootstrap = False\<rparr>"
    by (simp add: startState_def newRecoveryStatus_def recordedRecord_def states_def)
  show ?thesis
    by (rule getGaleraState_skips_recorded [OF h prod.collapse [symmetric]])
qed

text \<open>
  C5, as amended. When tasks of the collector fail, the collector has run the task of
  every pod without a recorded state and returns the error of one task only, the first
  failing one of the group; that error names the pod of its task.
\<close>

theorem getGaleraState_first_error:
  assumes "getGaleraState env cfg pods s = (Inl e, s')"
  shows "\<exists>before pod after c cause.
           fst (spawnStateTasks env cfg pods s) = before @ (pod, Inl e) # after \<and>
           list_all (\<lambda>x. succeeded (snd x)) before \<and>
           e = PodError c pod cause \<and>
           fst ` set (fst (spawnStateTasks env cfg pods s)) =
             {p \<in> set pods. states (rs s) p = None}"
proof -
  obtain results s1 where sp: "spawnStateTasks env cfg pods s = (results, s1)"
    by (cases "spawnStateTasks env cfg pods s")
  with assms have gw: "groupWait results = Inl e" by (simp add: getGaleraState_def)
  from groupWait_first [OF gw] obtain before pod after where
    split: "results = before @ (pod, Inl e) # after" "list_all (\<lambda>x. succeeded (snd x)) before"
    by blast
  then have "(pod, Inl e) \<in> set results" by simp
  from spawnStateTasks_errors [OF sp this] obtain c cause where "e = PodError c pod cause"
    by blast
  with split spawnStateTasks_pods [OF sp] sp show ?thesis by auto
qed

theorem getGaleraState_first_error_witness:
  "\<exists>before pod after c cause.
     fst (spawnStateTasks (clusterEnv [0, 1] (\<lambda>i. i = 1)) clusterConfig
            [''mdb-0'', ''mdb-1'', ''mdb-2''] (startState None)) =
       before @
       (pod, Inl (PodError ''error getting Galera state for Pod'' ''mdb-0'' DeadlineExceeded)) # after \<and>
     list_all (\<lambda>x. succeeded (snd x)) before \<and>
     PodError ''error getting Galera state for Pod'' ''mdb-0'' DeadlineExceeded =
       PodError c pod cause \<and>
     fst ` set (fst (spawnStateTasks (clusterEnv [0, 1] (\<lambda>i. i = 1)) clusterConfig
                      [''mdb-0'', ''mdb-1'', ''mdb-2''] (startState None))) =
       {p \<in> set [''mdb-0'', ''mdb-1'', ''mdb-2'']. states (rs (startState None)) p = None}"
proof -
  have "fst (getGaleraState (clusterEnv [0, 1] (\<lambda>i. i = 1)) clusterConfig
               [''mdb-0'', ''mdb-1'', ''mdb-2''] (startState None)) =
          Inl (PodError ''error getting Galera state for Pod'' ''mdb-0'' DeadlineExceeded)"
    by (simp add: scenario_defs collector_defs)
  then have "getGaleraState (clusterEnv [0, 1] (\<lambda>i. i = 1)) clusterConfig
               [''mdb-0'', ''mdb-1'', ''mdb-2''] (startState None) =
          (Inl (PodError ''error getting Galera state for Pod'' ''mdb-0'' DeadlineExceeded),
           snd (getGaleraState (clusterEnv [0, 1] (\<lambda>i. i = 1)) clusterConfig
                  [''mdb-0'', ''mdb-1'', ''mdb-2''] (startState None)))"
    by (metis prod.collapse)
  then show ?thesis by (rule getGaleraState_first_error)
qed

text \<open>
  C5 as stated fails. With the agents of \<open>mdb-0\<close> and \<open>mdb-1\<close> unreachable both tasks
  fail, and the error the collector returns names \<open>mdb-0\<close> only.
\<close>

theorem getGaleraState_drops_second_failure:
  "map (\<lambda>x. (fst x, succeeded (snd x)))
     (fst (spawnStateTasks (clusterEnv [0, 1] (\<lambda>i. i = 1)) clusterConfig
             [''mdb-0'', ''mdb-1'', ''mdb-2''] (startState None))) =
     [(''mdb-0'', False), (''mdb-1'', False), (''mdb-2'', True)] \<and>
   fst (getGaleraState (clusterEnv [0, 1] (\<lambda>i. i = 1)) clusterConfig
          [''mdb-0'', ''mdb-1'', ''mdb-2''] (startState None)) =
     Inl (PodError ''error getting Galera state for Pod'' ''mdb-0'' DeadlineExceeded) \<and>
   podsNamed (PodError ''error getting Galera state for Pod'' ''mdb-0'' DeadlineExceeded) =
     [''mdb-0'']"
  by (simp add: scenario_defs collector_defs)


text \<open>
  C6. When the task of a pod has succeeded and the task of another has failed, the
  collector returns an error and so does the cluster recovery, but not before the record
  with the state of the successful pod has been written to the status store (the store
  accepting the patch).
\<close>

theorem recoverCluster_persists_partial_state:
  assumes sp: "spawnStateTasks env cfg pods s = (results, s1)"
    and ok: "(p, Inr u) \<in> set results"
    and failed: "(q, Inl e) \<in> set results"
    and patch: "statusPatch env (Some (rs s1)) (world s1) = (Inr u', w)"
  shows "\<exists>e1 err s' v g.
           getGaleraState env cfg pods s = (Inl e1, s1) \<and>
           recoverCluster env cfg pods s = (Inl err, s') \<and>
           states (rs s') p = Some g \<and> stored s' = Some v \<and> states v p = Some g \<and>
           trace s' = trace s1 @ [(PatchStatus (Some v), True)]"
proof -
  from spawnStateTasks_recorded [OF sp ok] obtain g where g: "states (rs s1) p = Some g"
    by auto
  then have nz: "\<not> isZero (rs s1)" by (auto simp: isZero_def)
  have "\<not> succeeded (snd (q, Inl e :: error + unit))" by (simp add: succeeded_def)
  with failed have "\<not> list_all (\<lambda>x. succeeded (snd x)) results"
    unfolding list_all_iff by blast
  then have "groupWait results \<noteq> Inr ()" by (simp add: groupWait_ok)
  then obtain e1 where gw: "groupWait results = Inl e1" by (cases "groupWait results") auto
  let ?s2 = "s1\<lparr>mdbStatus := Some (rs s1), world := w,
                 trace := trace s1 @ [(PatchStatus (Some (rs s1)), True)],
                 stored := Some (rs s1)\<rparr>"
  have p: "patchRecoveryStatus env s1 = (Inr (), ?s2)"
    using nz patch by (cases s1) (simp add: patchRecoveryStatus_def call_def succeeded_def Let_def)
  have "recoverCluster env cfg pods s = (Inl (Wrapped ''error getting state'' (MultiError [e1])), ?s2)"
    using sp gw p by (simp add: recoverCluster_def getGaleraState_def appendError_def errorOrNil_def)
  moreover have "getGaleraState env cfg pods s = (Inl e1, s1)"
    using sp gw by (simp add: getGaleraState_def)
  ultimately show ?thesis using g by simp
qed


theorem recoverCluster_persists_partial_state_witness:
  "\<exists>e1 err s' v g.
     getGaleraState (clusterEnv [1] (\<lambda>i. i = 1)) clusterConfig
       [''mdb-0'', ''mdb-1'', ''mdb-2''] (startState None) =
       (Inl e1, snd (spawnStateTasks (clusterEnv [1] (\<lambda>i. i = 1)) clusterConfig
                       [''mdb-0'', ''mdb-1'', ''mdb-2''] (startState None))) \<and>
     recoverCluster (clusterEnv [1] (\<lambda>i. i = 1)) clusterConfig
       [''mdb-0'', ''mdb-1'', ''mdb-2''] (startState None) = (Inl err, s') \<and>
     states (rs s') ''mdb-0'' = Some g \<and> stored s' = Some v \<and> states v ''mdb-0'' = Some g \<and>
     trace s' =
       trace (snd (spawnStateTasks (clusterEnv [1] (\<lambda>i. i = 1)) clusterConfig
                     [''mdb-0'', ''mdb-1'', ''mdb-2''] (startState None))) @
       [(PatchStatus (Some v), True)]"
proof -
  let ?run = "spawnStateTasks (clusterEnv [1] (\<lambda>i. i = 1)) clusterConfig
                [''mdb-0'', ''mdb-1'', ''mdb-2''] (startState None)"
  have res: "fst ?run =
      [(''mdb-0'', Inr ()),
       (''mdb-1'', Inl (PodError ''error getting Galera state for Pod'' ''mdb-1'' DeadlineExceeded)),
       (''mdb-2'', Inr ())]"
    by (simp add: scenario_defs collector_defs)
  have sp: "?run = (fst ?run, snd ?run)" by simp
  have ok: "(''mdb-0'', Inr ()) \<in> set (fst ?run)" by (subst res) simp
  have failed: "(''mdb-1'', Inl (PodError ''error getting Galera state for Pod'' ''mdb-1''
                   DeadlineExceeded)) \<in> set (fst ?run)"
    by (subst res) simp
  have patch: "statusPatch (clusterEnv [1] (\<lambda>i. i = 1)) (Some (rs (snd ?run))) (world (snd ?run)) =
                 (Inr (), ())"
    by (simp add: clusterEnv_def)
  show ?thesis
    by (rule recoverCluster_persists_partial_state [OF sp ok failed patch])
qed


section \<open>Persisting, resetting, the orchestrator\<close>

lemma patchRecoveryStatus_result:
  assumes "patchRecoveryStatus env s = (r, s')"
  shows "\<exists>w. statusPatch env (if isZero (rs s) then None else Some (rs s)) (world s) = (r, w) \<and>
           s' = s\<lparr>mdbStatus := (if isZero (rs s) then None else Some (rs s)),
                  world := w,
                  trace := trace s @ [(PatchStatus (if isZero (rs s) then None else Some (rs s)), succeeded r)],
                  stored := (if succeeded r then (if isZero (rs s) then None else Some (rs s)) else stored s)\<rparr>"
  using assms
  by (cases "statusPatch env (if isZero (rs s) then None else Some (rs s)) (world s)")
     (auto simp: patchRecoveryStatus_def call_def Let_def succeeded_def split: sum.splits)

text \<open>
  C9. A persist of the recovery record writes one value \<open>v\<close> to the status field and
  sends it to the status store: \<open>v\<close> is nil exactly when all four fields of the record
  (\<open>states\<close>, \<open>recovered\<close>, \<open>bootstrap\<close>, \<open>podsRestarted\<close>) are at their zero
  value, and the record itself otherwise; the store holds \<open>v\<close> when the patch succeeds
  and keeps its value when it fails.
\<close>

theorem patchRecoveryStatus_omits_zero:
  assumes "patchRecoveryStatus env s = (r, s')"
  shows "\<exists>v. trace s' = trace s @ [(PatchStatus v, succeeded r)] \<and>
             mdbStatus s' = v \<and>
             (v = None \<longleftrightarrow>
                states (rs s) = Map.empty \<and> recovered (rs s) = Map.empty \<and>
                bootstrapping (rs s) = None \<and> \<not> podsRestarted (rs s)) \<and>
             (v \<noteq> None \<longrightarrow> v = Some (rs s)) \<and>
             (succeeded r \<longrightarrow> stored s' = v) \<and>
             (\<not> succeeded r \<longrightarrow> stored s' = stored s)"
proof -
  from patchRecoveryStatus_result [OF assms] obtain w where
    "s' = s\<lparr>mdbStatus := (if isZero (rs s) then None else Some (rs s)),
                  world := w,
                  trace := trace s @ [(PatchStatus (if isZero (rs s) then None else Some (rs s)), succeeded r)],
                  stored := (if succeeded r then (if isZero (rs s) then None else Some (rs s)) else stored s)\<rparr>"
    by blast
  then show ?thesis by (simp add: isZero_def)
qed

text \<open>
  C3. The restart phase first asks the agent of the recorded bootstrap pod for its
  state. When the answer is no longer safe to bootstrap and the status store accepts the
  patch, the phase ends without error after these two calls: the working record is
  cleared, the status field and the store hold no record, and no pod has been deleted.
\<close>

theorem restartPods_resets_when_unsafe:
  assumes "mdbStatus s = Some status" and "bootstrapping status = Some b"
    and "PodIndex env (bootstrapPod b) = Inr i" and "clientForIndex env i = Inr c"
    and "agentGetGaleraState env i (world s) = (Inr g, w1)" and "\<not> safeToBootstrap g"
    and "statusPatch env None w1 = (Inr u, w2)"
  shows "restartPods env cfg s =
           (Inr (), s\<lparr>world := w2,
                      trace := trace s @ [(GetGaleraState (bootstrapPod b) i, True),
                                          (PatchStatus None, True)],
                      rs := emptyRecord, mdbStatus := None, stored := None\<rparr>)"
  using assms
  by (cases s)
     (simp add: restartPods_def call_def succeeded_def resetRecovery_def reset_def
      patchRecoveryStatus_def isZero_def emptyRecord_def states_def recovered_def Let_def)

text \<open>
  C4, as amended. With a recorded bootstrap attempt older than the configured bootstrap
  timeout, an invocation of the orchestrator that has listed the pods and built the
  agent clients clears the record and persists the cleared record (the store accepting
  the patch) before anything else: its phases run from the state in which the working
  record is empty and the status field and the store hold no record.
\<close>

theorem reconcileRecovery_resets_on_timeout:
  assumes "mdbStatus s = Some status" and "bootstrapping status = Some b"
    and "startedAt b + clusterBootstrapTimeout cfg < clock s"
    and "listPods env (world s) = (Inr items, w1)" and "newAgentClientSet env = Inr c"
    and "statusPatch env None w1 = (Inr u, w2)"
  shows "reconcileRecovery env cfg s =
           reconcilePhases env cfg (sort items)
             (s\<lparr>world := w2,
                trace := trace s @ [(ListPods, True), (PatchStatus None, True)],
                rs := emptyRecord, mdbStatus := None, stored := None\<rparr>)"
  using assms
  by (cases s)
     (simp add: reconcileRecovery_def getPods_def call_def succeeded_def newRecoveryStatus_def
      bootstrapTimeout_def resetRecovery_def reset_def patchRecoveryStatus_def isZero_def
      emptyRecord_def states_def recovered_def Let_def)

text \<open>
  C7, as amended. On a record with \<open>podsRestarted\<close> set and a bootstrap attempt that has
  not timed out, an invocation of the orchestrator lists the pods and does nothing else:
  no call on an agent, a pod or the status store, and the status field and the store
  are unchanged.
\<close>

theorem reconcileRecovery_done_is_noop:
  assumes "mdbStatus s = Some status" and "bootstrapping status = Some b"
    and "\<not> startedAt b + clusterBootstrapTimeout cfg < clock s"
    and "podsRestarted status"
    and "listPods env (world s) = (Inr items, w1)" and "newAgentClientSet env = Inr c"
  shows "reconcileRecovery env cfg s =
           (Inr (), s\<lparr>world := w1, trace := trace s @ [(ListPods, True)], rs := status\<rparr>)"
  using assms
  by (cases s)
     (simp add: reconcileRecovery_def getPods_def call_def succeeded_def newRecoveryStatus_def
      bootstrapTimeout_def reconcilePhases_def isBootstrapping_def Let_def)


theorem restartPods_resets_when_unsafe_witness:
  "restartPods (clusterEnv [] (\<lambda>i. False)) clusterConfig (startState (Some (bootstrappedRecord 990 False))) =
     (Inr (), (startState (Some (bootstrappedRecord 990 False)))
                \<lparr>world := (),
                 trace := trace (startState (Some (bootstrappedRecord 990 False))) @
                          [(GetGaleraState ''mdb-1'' 1, True), (PatchStatus None, True)],
                 rs := emptyRecord, mdbStatus := None, stored := None\<rparr>)"
  using restartPods_resets_when_unsafe [of "startState (Some (bootstrappedRecord 990 False))"
      "bootstrappedRecord 990 False" "\<lparr>bootstrapPod = ''mdb-1'', startedAt = 990\<rparr>"
      "clusterEnv [] (\<lambda>i. False)" 1 "()"
      "\<lparr>uuid = ''u'', seqno = 10, safeToBootstrap = False\<rparr>" "()" "()" "()" clusterConfig]
  by (simp add: clusterEnv_def startState_def bootstrappedRecord_def)

theorem reconcileRecovery_resets_on_timeout_witness:
  "reconcileRecovery (clusterEnv [] (\<lambda>i. i = 1)) clusterConfig
       (startState (Some (bootstrappedRecord 100 False))) =
     reconcilePhases (clusterEnv [] (\<lambda>i. i = 1)) clusterConfig [''mdb-0'', ''mdb-1'', ''mdb-2'']
       ((startState (Some (bootstrappedRecord 100 False)))
          \<lparr>world := (),
           trace := trace (startState (Some (bootstrappedRecord 100 False))) @
                    [(ListPods, True), (PatchStatus None, True)],
           rs := emptyRecord, mdbStatus := None, stored := None\<rparr>)"
  using reconcileRecovery_resets_on_timeout [of "startState (Some (bootstrappedRecord 100 False))"
      "bootstrappedRecord 100 False" "\<lparr>bootstrapPod = ''mdb-1'', startedAt = 100\<rparr>"
      clusterConfig "clusterEnv [] (\<lambda>i. i = 1)" "[''mdb-1'', ''mdb-0'', ''mdb-2'']" "()" "()" "()" "()"]
  by (simp add: clusterEnv_def startState_def bootstrappedRecord_def clusterConfig_def)

theorem reconcileRecovery_done_is_noop_witness:
  "reconcileRecovery (clusterEnv [] (\<lambda>i. i = 1)) clusterConfig
       (startState (Some (bootstrappedRecord 990 True))) =
     (Inr (), (startState (Some (bootstrappedRecord 990 True)))
                \<lparr>world := (),
                 trace := trace (startState (Some (bootstrappedRecord 990 True))) @ [(ListPods, True)],
                 rs := bootstrappedRecord 990 True\<rparr>)"
  using reconcileRecovery_done_is_noop [of "startState (Some (bootstrappedRecord 990 True))"
      "bootstrappedRecord 990 True" "\<lparr>bootstrapPod = ''mdb-1'', startedAt = 990\<rparr>"
      clusterConfig "clusterEnv [] (\<lambda>i. i = 1)" "[''mdb-1'', ''mdb-0'', ''mdb-2'']" "()" "()"]
  by (simp add: clusterEnv_def startState_def bootstrappedRecord_def clusterConfig_def)

theorem patchRecoveryStatus_omits_zero_witness:
  "\<exists>v. trace (snd (patchRecoveryStatus (clusterEnv [] (\<lambda>i. i = 1)) (startState None))) =
           trace (startState None) @ [(PatchStatus v, True)] \<and>
       mdbStatus (snd (patchRecoveryStatus (clusterEnv [] (\<lambda>i. i = 1)) (startState None))) = v \<and>
       v = None \<and>
       stored (snd (patchRecoveryStatus (clusterEnv [] (\<lambda>i. i = 1)) (startState None))) = v"
proof -
  obtain r s' where p: "patchRecoveryStatus (clusterEnv [] (\<lambda>i. i = 1)) (startState None) = (r, s')"
    by (cases "patchRecoveryStatus (clusterEnv [] (\<lambda>i. i = 1)) (startState None)")
  then have r: "r = Inr ()"
    by (auto simp: patchRecoveryStatus_def call_def clusterEnv_def Let_def split: sum.splits prod.splits)
  from patchRecoveryStatus_omits_zero [OF p] r p show ?thesis
    by (auto simp: succeeded_def startState_def newRecoveryStatus_def emptyRecord_def
        states_def recovered_def)
qed


text \<open>
  C7 as stated fails. On a record with \<open>podsRestarted\<close> set and no bootstrap attempt,
  the orchestrator lists the pods and, no bootstrap being recorded, runs the cluster
  recovery: in the healthy three-pod cluster it queries the three agents, bootstraps
  \<open>mdb-1\<close> and stores a record with the collected states and the bootstrap attempt.
\<close>

theorem reconcileRecovery_restarted_not_noop:
  "podsRestarted restartedRecord \<and> bootstrapping restartedRecord = None \<and>
   filter (\<lambda>e. eventPod e \<noteq> None)
     (map fst (trace (snd (reconcileRecovery (clusterEnv [] (\<lambda>i. i = 1)) clusterConfig
                             (startState (Some restartedRecord)))))) =
     [GetPod ''mdb-0'', GetGaleraState ''mdb-0'' 0, GetPod ''mdb-1'', GetGaleraState ''mdb-1'' 1,
      GetPod ''mdb-2'', GetGaleraState ''mdb-2'' 2, GetPod ''mdb-1'',
      BootstrapEnable ''mdb-1'' 1 \<lparr>srcPod = ''mdb-1'', srcSeqno = 10, srcOrigin = FromState\<rparr>] \<and>
   map_option bootstrapping
     (stored (snd (reconcileRecovery (clusterEnv [] (\<lambda>i. i = 1)) clusterConfig
                     (startState (Some restartedRecord))))) =
     Some (Some \<lparr>bootstrapPod = ''mdb-1'', startedAt = 1000\<rparr>) \<and>
   stored (startState (Some restartedRecord)) = Some restartedRecord"
  by (simp add: reconcileRecovery_def getPods_def call_def succeeded_def newRecoveryStatus_def
      bootstrapTimeout_def reconcilePhases_def isBootstrapping_def Let_def clusterEnv_def
      startState_def restartedRecord_def clusterConfig_def recoverCluster_def getGaleraState_def
      galeraStateTask_def recoveryTimeout_def ensurePodRunning_def patchRecoveryStatus_def
      isZero_def setState_def states_def recovered_def stateKeys_def appendError_def
      errorOrNil_def bootstrapSource_def
      safeCandidates_def better_def bootstrap_def setBootstrapping_def poll.simps)

text \<open>
  C4 as stated fails. The orchestrator lists the pods before it looks at the age of the
  bootstrap attempt: when the listing fails it returns that error, and the stale record
  stays in the status field and in the status store.
\<close>

theorem reconcileRecovery_stale_kept_when_listing_fails:
  "bootstrapping (bootstrappedRecord 100 False) =
     Some \<lparr>bootstrapPod = ''mdb-1'', startedAt = 100\<rparr> \<and>
   100 + clusterBootstrapTimeout clusterConfig < clock (startState (Some (bootstrappedRecord 100 False))) \<and>
   reconcileRecovery apiDownEnv clusterConfig (startState (Some (bootstrappedRecord 100 False))) =
     (Inl (Wrapped ''error getting Pods'' (Wrapped ''error listing Pods'' (Failure ''api unavailable''))),
      (startState (Some (bootstrappedRecord 100 False)))\<lparr>trace := [(ListPods, False)]\<rparr>) \<and>
   stored ((startState (Some (bootstrappedRecord 100 False)))\<lparr>trace := [(ListPods, False)]\<rparr>) =
     Some (bootstrappedRecord 100 False)"
  by (simp add: reconcileRecovery_def getPods_def call_def succeeded_def apiDownEnv_def
      clusterEnv_def clusterConfig_def startState_def bootstrappedRecord_def)

section \<open>The bootstrap executor\<close>

lemma enableBody_failed:
  assumes "(case ensurePodRunning env ctx p s of
              (Inl e, s1) \<Rightarrow> (Inl e, s1)
            | (Inr u, s1) \<Rightarrow> call (BootstrapEnable p idx src) (agentBootstrapEnable env idx src) s1) =
           (Inl e, s')"
  shows "steps (enableAttempt p idx src) (=) s s'"
proof -
  obtain r1 s1 where e: "ensurePodRunning env ctx p s = (r1, s1)"
    by (cases "ensurePodRunning env ctx p s")
  have st1: "steps (enableAttempt p idx src) (=) s s1"
    by (rule steps_mono [OF ensurePodRunning_steps [OF e]]) (simp_all add: enableAttempt_def)
  show ?thesis
  proof (cases r1)
    case (Inl e1)
    with assms e have "s' = s1" by simp
    with st1 show ?thesis by simp
  next
    case (Inr u)
    with assms e have c: "call (BootstrapEnable p idx src) (agentBootstrapEnable env idx src) s1 = (Inl e, s')"
      by simp
    then have "steps (enableAttempt p idx src) (=) s1 s'"
      by (rule call_steps) (simp_all add: enableAttempt_def succeeded_def)
    from steps_trans [OF st1 this] show ?thesis by simp
  qed
qed

lemma enableBody_succeeded:
  assumes "(case ensurePodRunning env ctx p s of
              (Inl e, s1) \<Rightarrow> (Inl e, s1)
            | (Inr u, s1) \<Rightarrow> call (BootstrapEnable p idx src) (agentBootstrapEnable env idx src) s1) =
           (Inr u, s')"
  shows "\<exists>evs. trace s' = trace s @ evs @ [(BootstrapEnable p idx src, True)] \<and>
               list_all (enableAttempt p idx src) evs \<and> rs s' = rs s \<and>
               mdbStatus s' = mdbStatus s \<and> stored s' = stored s"
proof -
  obtain r1 s1 where e: "ensurePodRunning env ctx p s = (r1, s1)"
    by (cases "ensurePodRunning env ctx p s")
  have st1: "steps (enableAttempt p idx src) (=) s s1"
    by (rule steps_mono [OF ensurePodRunning_steps [OF e]]) (simp_all add: enableAttempt_def)
  from assms e obtain u1 where "r1 = Inr u1" by (cases r1) auto
  with assms e have c: "call (BootstrapEnable p idx src) (agentBootstrapEnable env idx src) s1 = (Inr u, s')"
    by simp
  from call_trace [OF c] st1 show ?thesis
    by (auto simp: steps_def succeeded_def)
qed

text \<open>
  C10. The bootstrap executor records the attempt only after the agent's
  bootstrap-enable call has succeeded: when it returns without error, that successful
  call is the last call it made, every earlier enable call failed, and the record has
  gained the attempt on the source's pod with the current time. When it returns an error
  (no index for the pod, no client, or the poll out of time) the record is as it was.
  Neither way does it touch the status field or the status store.
\<close>

theorem bootstrap_records_after_enable:
  assumes "bootstrap env src s = (r, s')"
  shows "(succeeded r \<longrightarrow>
            (\<exists>idx evs. PodIndex env (srcPod src) = Inr idx \<and>
               trace s' = trace s @ evs @ [(BootstrapEnable (srcPod src) idx src, True)] \<and>
               list_all (enableAttempt (srcPod src) idx src) evs \<and>
               rs s' = (rs s)\<lparr>bootstrapping :=
                                Some \<lparr>bootstrapPod = srcPod src, startedAt = clock s'\<rparr>\<rparr>)) \<and>
         (\<not> succeeded r \<longrightarrow> rs s' = rs s) \<and>
         mdbStatus s' = mdbStatus s \<and> stored s' = stored s"
proof (cases "PodIndex env (srcPod src)")
  case (Inl e)
  with assms show ?thesis by (auto simp: bootstrap_def succeeded_def)
next
  case (Inr idx)
  note idx = this
  show ?thesis
  proof (cases "clientForIndex env idx")
    case (Inl e)
    with assms idx show ?thesis by (auto simp: bootstrap_def succeeded_def)
  next
    case (Inr client)
    let ?p = "srcPod src"
    let ?ctx = "clock s + 3 * 60"
    let ?body = "\<lambda>s. case ensurePodRunning env ?ctx ?p s of
              (Inl e, s1) \<Rightarrow> (Inl e, s1)
            | (Inr u, s1) \<Rightarrow> call (BootstrapEnable ?p idx src) (agentBootstrapEnable env idx src) s1"
    let ?Q = "steps (enableAttempt ?p idx src) (=)"
    obtain r1 s1 where p: "poll ?ctx ?body s = (r1, s1)"
      by (cases "poll ?ctx ?body s")
    have res: "(r1 = Inl DeadlineExceeded \<and> ?Q s s1) \<or>
               (\<exists>s0 u. r1 = Inr () \<and> ?Q s s0 \<and> ?body s0 = (Inr u, s1))"
    proof (rule poll_result [OF p])
      show "\<And>s. ?Q s s" by (simp add: steps_refl)
      show "\<And>s s1 s2. ?Q s s1 \<Longrightarrow> ?Q s1 s2 \<Longrightarrow> ?Q s s2"
        using steps_trans by blast
      show "\<And>s s1 c. ?Q s s1 \<Longrightarrow> ?Q s (s1\<lparr>clock := c\<rparr>)" by (rule steps_clock)
      show "\<And>s e s1. ?body s = (Inl e, s1) \<Longrightarrow> ?Q s s1" by (rule enableBody_failed)
    qed
    from res show ?thesis
    proof
      assume a: "r1 = Inl DeadlineExceeded \<and> ?Q s s1"
      with assms idx Inr p have "s' = s1" "\<not> succeeded r"
        by (auto simp: bootstrap_def Let_def succeeded_def)
      with a show ?thesis by (simp add: steps_def)
    next
      assume "\<exists>s0 u. r1 = Inr () \<and> ?Q s s0 \<and> ?body s0 = (Inr u, s1)"
      then obtain s0 u where a: "r1 = Inr ()" "?Q s s0" "?body s0 = (Inr u, s1)" by blast
      from enableBody_succeeded [OF a(3)] obtain evs1 where
        b: "trace s1 = trace s0 @ evs1 @ [(BootstrapEnable ?p idx src, True)]"
           "list_all (enableAttempt ?p idx src) evs1" "rs s1 = rs s0"
           "mdbStatus s1 = mdbStatus s0" "stored s1 = stored s0"
        by blast
      from a(2) obtain evs0 where
        c: "trace s0 = trace s @ evs0" "list_all (enableAttempt ?p idx src) evs0" "rs s0 = rs s"
           "mdbStatus s0 = mdbStatus s" "stored s0 = stored s"
        by (auto simp: steps_def)
      from assms idx Inr p a(1) have s': "s' = s1\<lparr>rs := setBootstrapping ?p (clock s1) (rs s1)\<rparr>"
        and r: "r = Inr ()"
        by (auto simp: bootstrap_def Let_def)
      have "trace s' = trace s @ (evs0 @ evs1) @ [(BootstrapEnable ?p idx src, True)]"
        using s' b(1) c(1) by simp
      moreover have "list_all (enableAttempt ?p idx src) (evs0 @ evs1)"
        using b(2) c(2) by simp
      moreover have "rs s' = (rs s)\<lparr>bootstrapping :=
                                Some \<lparr>bootstrapPod = ?p, startedAt = clock s'\<rparr>\<rparr>"
        using s' b(3) c(3) by (simp add: setBootstrapping_def)
      moreover have "mdbStatus s' = mdbStatus s" "stored s' = stored s"
        using s' b(4,5) c(4,5) by simp_all
      ultimately show ?thesis using idx r by (auto simp: succeeded_def)
    qed
  qed
qed

theorem bootstrap_records_after_enable_witness:
  "succeeded (fst (bootstrap (clusterEnv [] (\<lambda>i. i = 1)) mdb1Source (startState None))) \<and>
   (\<exists>idx evs.
      PodIndex (clusterEnv [] (\<lambda>i. i = 1)) (srcPod mdb1Source) = Inr idx \<and>
      trace (snd (bootstrap (clusterEnv [] (\<lambda>i. i = 1)) mdb1Source (startState None))) =
        trace (startState None) @ evs @ [(BootstrapEnable (srcPod mdb1Source) idx mdb1Source, True)] \<and>
      list_all (enableAttempt (srcPod mdb1Source) idx mdb1Source) evs \<and>
      rs (snd (bootstrap (clusterEnv [] (\<lambda>i. i = 1)) mdb1Source (startState None))) =
        (rs (startState None))\<lparr>bootstrapping :=
           Some \<lparr>bootstrapPod = srcPod mdb1Source,
                 startedAt = clock (snd (bootstrap (clusterEnv [] (\<lambda>i. i = 1)) mdb1Source
                                           (startState None)))\<rparr>\<rparr>) \<and>
   \<not> succeeded (fst (bootstrap (clusterEnv [] (\<lambda>i. i = 1)) unknownSource (startState None))) \<and>
   rs (snd (bootstrap (clusterEnv [] (\<lambda>i. i = 1)) unknownSource (startState None))) =
     rs (startState None)"
proof -
  have ok: "succeeded (fst (bootstrap (clusterEnv [] (\<lambda>i. i = 1)) mdb1Source (startState None)))"
    by (simp add: bootstrap_def mdb1Source_def scenario_defs ensurePodRunning_def call_def
        succeeded_def Let_def poll.simps)
  have bad: "\<not> succeeded (fst (bootstrap (clusterEnv [] (\<lambda>i. i = 1)) unknownSource (startState None)))"
    by (simp add: bootstrap_def unknownSource_def scenario_defs succeeded_def)
  from bootstrap_records_after_enable [OF prod.collapse [symmetric],
      of "clusterEnv [] (\<lambda>i. i = 1)" mdb1Source "startState None"] ok
    bootstrap_records_after_enable [OF prod.collapse [symmetric],
      of "clusterEnv [] (\<lambda>i. i = 1)" unknownSource "startState None"] bad
  show ?thesis by blast
qed


section \<open>The pod-restart sequencer\<close>










end
